theory Spec2Isabelle
  imports Complex_Main "HOL-Library.Sublist"
begin

section \<open>Python strings and the runtime\<close>

text \<open>
  A Python \<^verbatim>\<open>str\<close> is a sequence of Unicode code points, so a string is a list of
  natural numbers and \<open>length\<close> counts what \<^verbatim>\<open>len\<close> counts. The literals of the source
  are ASCII (but for the four openers of the hook heuristic) and are written with \<open>asc\<close>.
\<close>

type_synonym pychar = nat
type_synonym pystr = "pychar list"

definition asc :: "string \<Rightarrow> pystr" where
  "asc s = map of_char s"

text \<open>
  \<^verbatim>\<open>str.isspace\<close> for one code point, the test behind \<^verbatim>\<open>str.strip()\<close>, \<^verbatim>\<open>str.split()\<close>
  and the \<^verbatim>\<open>\s\<close> of \<^verbatim>\<open>re\<close> on a \<^verbatim>\<open>str\<close> pattern: U+0009..U+000D, U+001C..U+001F, U+0020,
  U+0085, U+00A0, U+1680, U+2000..U+200A, U+2028, U+2029, U+202F, U+205F, U+3000.
\<close>

definition isspace :: "pychar \<Rightarrow> bool" where
  "isspace c = ((9 \<le> c \<and> c \<le> 13) \<or> (28 \<le> c \<and> c \<le> 32) \<or> c = 133 \<or> c = 160 \<or> c = 5760
     \<or> (8192 \<le> c \<and> c \<le> 8202) \<or> c = 8232 \<or> c = 8233 \<or> c = 8239 \<or> c = 8287 \<or> c = 12288)"

text \<open>The line boundaries of \<^verbatim>\<open>str.splitlines()\<close>: LF, VT, FF, CR, FS, GS, RS, NEL, LS, PS.\<close>

definition is_linebreak :: "pychar \<Rightarrow> bool" where
  "is_linebreak c = ((10 \<le> c \<and> c \<le> 13) \<or> (28 \<le> c \<and> c \<le> 30) \<or> c = 133 \<or> c = 8232 \<or> c = 8233)"

text \<open>
  What the Python runtime brings and the repository does not hold is a parameter of the
  model. Case mapping and the alphanumeric test come from the Unicode tables of the
  runtime. \<open>tie_up\<close> belongs to its binary floating point: for the list of values whose
  mean the scorer rounds, it says whether \<^verbatim>\<open>round\<close> goes up when the decimal mean lies
  exactly between two hundredths (see \<open>py_round2\<close> below).
\<close>

record runtime =
  str_lower :: "pystr \<Rightarrow> pystr"
  isalnum :: "pychar \<Rightarrow> bool"
  tie_up :: "rat list \<Rightarrow> bool"

definition ascii_lower :: "pystr \<Rightarrow> pystr" where
  "ascii_lower s = map (\<lambda>c. if 65 \<le> c \<and> c \<le> 90 then c + 32 else c) s"

definition ascii_isalnum :: "pychar \<Rightarrow> bool" where
  "ascii_isalnum c = ((48 \<le> c \<and> c \<le> 57) \<or> (65 \<le> c \<and> c \<le> 90) \<or> (97 \<le> c \<and> c \<le> 122))"

text \<open>
  Rounding to an integer: to the nearest one, and on a tie up or down as the flag says.
\<close>

definition round_tie :: "bool \<Rightarrow> rat \<Rightarrow> int" where
  "round_tie up q =
     (let f = \<lfloor>q\<rfloor>; d = q - of_int f
      in if d < 1 / 2 then f else if 1 / 2 < d then f + 1 else if up then f + 1 else f)"

text \<open>
  The runtime used for the concrete inputs is CPython up to version 3.11 on ASCII text.
  Its floats are IEEE binary64: \<open>fl q\<close> is the double nearest to \<open>q\<close>, ties to the even
  mantissa (53 bits; the magnitudes met here stay in the normal range). \<^verbatim>\<open>sum\<close> adds from
  left to right, starting from the integer 0, and rounds after every addition; the
  division by the length rounds once more. \<^verbatim>\<open>round(x, 2)\<close> is correctly rounded on the
  binary value, so on a decimal tie it goes up when the binary mean lies above the
  decimal one, and to the even hundredth when the two are equal. (From Python 3.12 on
  \<^verbatim>\<open>sum\<close> compensates its rounding errors: another runtime of the model.)
\<close>

function bit_length :: "int \<Rightarrow> int" where
  "bit_length n = (if n \<le> 0 then 0 else bit_length (n div 2) + 1)"
  by pat_completeness auto
termination
  by (relation "measure nat") auto

declare bit_length.simps [simp del]

definition ilog2 :: "rat \<Rightarrow> int" where
  "ilog2 q =
     (let (a, b) = quotient_of q;
          e = bit_length a - bit_length b
      in if 2 powi e \<le> q then e else e - 1)"

definition fl :: "rat \<Rightarrow> rat" where
  "fl q =
     (if q = 0 then 0
      else let e = ilog2 \<bar>q\<bar> - 52;
               x = \<bar>q\<bar> / 2 powi e
           in sgn q * of_int (round_tie (odd \<lfloor>x\<rfloor>) x) * 2 powi e)"

definition binary_mean :: "rat list \<Rightarrow> rat" where
  "binary_mean vs = fl (foldl (\<lambda>s v. fl (s + fl v)) 0 vs / of_nat (length vs))"

definition cpython_tie_up :: "rat list \<Rightarrow> bool" where
  "cpython_tie_up vs =
     (let m = sum_list vs / of_nat (length vs); b = binary_mean vs
      in m < b \<or> (b = m \<and> odd \<lfloor>m * 100\<rfloor>))"

definition ascii_db :: runtime where
  "ascii_db =
     \<lparr>str_lower = ascii_lower, isalnum = ascii_isalnum, tie_up = cpython_tie_up\<rparr>"

definition is_ascii :: "pystr \<Rightarrow> bool" where
  "is_ascii s = list_all (\<lambda>c. c < 128) s"

text \<open>What every Python runtime does on ASCII text.\<close>

definition ascii_faithful :: "runtime \<Rightarrow> bool" where
  "ascii_faithful U = ((\<forall>s. is_ascii s \<longrightarrow> str_lower U s = ascii_lower s)
     \<and> (\<forall>c. c < 128 \<longrightarrow> isalnum U c = ascii_isalnum c))"

text \<open>\<^verbatim>\<open>s.strip()\<close>: whitespace removed at both ends.\<close>

definition strip :: "pystr \<Rightarrow> pystr" where
  "strip s = rev (dropWhile isspace (rev (dropWhile isspace s)))"

text \<open>
  \<^verbatim>\<open>s.split()\<close>: the maximal runs of non-whitespace, scanned left to right; \<open>cur\<close> is the
  word being read.
\<close>

fun split_acc :: "pystr \<Rightarrow> pystr \<Rightarrow> pystr list" where
  "split_acc cur [] = (if cur = [] then [] else [cur])"
| "split_acc cur (c # cs) =
     (if isspace c then (if cur = [] then split_acc [] cs else cur # split_acc [] cs)
      else split_acc (cur @ [c]) cs)"

definition split_ws :: "pystr \<Rightarrow> pystr list" where
  "split_ws s = split_acc [] s"

text \<open>\<^verbatim>\<open>sep.join(xs)\<close>.\<close>

fun join :: "pystr \<Rightarrow> pystr list \<Rightarrow> pystr" where
  "join sep [] = []"
| "join sep [x] = x"
| "join sep (x # y # ys) = x @ sep @ join sep (y # ys)"

text \<open>
  \<^verbatim>\<open>s.splitlines()\<close>: CR LF is one boundary, and a boundary at the very end opens no
  further line.
\<close>

fun splitlines_acc :: "pystr \<Rightarrow> pystr \<Rightarrow> pystr list" where
  "splitlines_acc cur [] = (if cur = [] then [] else [cur])"
| "splitlines_acc cur [c] = (if is_linebreak c then [cur] else [cur @ [c]])"
| "splitlines_acc cur (c # d # cs) =
     (if c = 13 \<and> d = 10 then cur # splitlines_acc [] cs
      else if is_linebreak c then cur # splitlines_acc [] (d # cs)
      else splitlines_acc (cur @ [c]) (d # cs))"

definition splitlines :: "pystr \<Rightarrow> pystr list" where
  "splitlines s = splitlines_acc [] s"

text \<open>
  \<^verbatim>\<open>re.sub(r"\s+", " ", s)\<close>: every maximal run of whitespace becomes one space; the flag
  says that the scan is inside a run.
\<close>

fun re_sub_ws :: "bool \<Rightarrow> pystr \<Rightarrow> pystr" where
  "re_sub_ws in_run [] = []"
| "re_sub_ws in_run (c # cs) =
     (if isspace c then (if in_run then re_sub_ws True cs else 32 # re_sub_ws True cs)
      else c # re_sub_ws False cs)"

text \<open>\<^verbatim>\<open>str(n)\<close> for a non-negative integer, as the f-strings of the warnings need it.\<close>

function str_of_nat :: "nat \<Rightarrow> pystr" where
  "str_of_nat n = (if n < 10 then [48 + n] else str_of_nat (n div 10) @ [48 + n mod 10])"
  by pat_completeness auto
termination
  by (relation "measure id") auto

declare str_of_nat.simps [simp del]

section \<open>tools.py\<close>

subsection \<open>Configuration\<close>

datatype error = KeyError

text \<open>A dictionary with its keys in source order; \<open>d[k]\<close> raises on a missing key.\<close>

definition getitem :: "('k \<times> 'v) list \<Rightarrow> 'k \<Rightarrow> error + 'v" where
  "getitem d k = (case map_of d k of None \<Rightarrow> Inl KeyError | Some v \<Rightarrow> Inr v)"

definition dict_get :: "('k \<times> 'v) list \<Rightarrow> 'k \<Rightarrow> 'v \<Rightarrow> 'v" where
  "dict_get d k dflt = (case map_of d k of None \<Rightarrow> dflt | Some v \<Rightarrow> v)"

definition PLATFORM_CONFIG :: "(pystr \<times> (string \<times> nat) list) list" where
  "PLATFORM_CONFIG =
     [(asc ''linkedin'', [(''min_words'', 80), (''max_words'', 220)]),
      (asc ''instagram'', [(''max_chars'', 2200), (''max_lines'', 10)]),
      (asc ''email'', [(''min_words'', 40), (''max_words'', 160)])]"

definition normalize_whitespace :: "pystr \<Rightarrow> pystr" where
  "normalize_whitespace text = (if text = [] then [] else strip (re_sub_ws False text))"

subsection \<open>platform_formatting_tool\<close>

text \<open>
  The formatter returns a dictionary whose keys depend on the branch: it is modelled as
  the list of its items in source order. The only operation of the function that can
  raise on \<^verbatim>\<open>str\<close> arguments is a subscript of the configuration, so the result is
  \<open>error + dict\<close>. On a \<^verbatim>\<open>str\<close> the expressions \<^verbatim>\<open>platform or ""\<close> and \<^verbatim>\<open>text or ""\<close> are
  the string itself; \<^verbatim>\<open>hashtags\<close> is \<^verbatim>\<open>Optional[List[str]]\<close>.
\<close>

datatype pyval = Str pystr | NoneVal

text \<open>The first loop over the hashtags (lines 171-178); \<open>cleaned_tags\<close> is the accumulator.\<close>

fun clean_tags :: "pystr list \<Rightarrow> pystr list \<Rightarrow> pystr list" where
  "clean_tags cleaned_tags [] = cleaned_tags"
| "clean_tags cleaned_tags (tag # rest) =
     (let t = strip tag in
      if t = [] then clean_tags cleaned_tags rest
      else let t = (if prefix (asc ''#'') t then t else asc ''#'' @ t)
           in clean_tags (cleaned_tags @ [t]) rest)"

text \<open>The second loop (lines 181-186), with its two variables \<open>seen\<close> and \<open>deduped_tags\<close>.\<close>

fun dedupe_tags :: "runtime \<Rightarrow> pystr set \<Rightarrow> pystr list \<Rightarrow> pystr list \<Rightarrow> pystr list" where
  "dedupe_tags U seen deduped_tags [] = deduped_tags"
| "dedupe_tags U seen deduped_tags (t # rest) =
     (if str_lower U t \<notin> seen
      then dedupe_tags U (insert (str_lower U t) seen) (deduped_tags @ [t]) rest
      else dedupe_tags U seen deduped_tags rest)"

definition format_linkedin :: "pystr \<Rightarrow> error + (string \<times> pyval) list" where
  "format_linkedin formatted0 =
     (let formatted = normalize_whitespace formatted0;
          words = split_ws formatted
      in case getitem PLATFORM_CONFIG (asc ''linkedin'') of Inl e \<Rightarrow> Inl e | Inr cfg \<Rightarrow>
        (case getitem cfg ''min_words'' of Inl e \<Rightarrow> Inl e | Inr min_w \<Rightarrow>
        (case getitem cfg ''max_words'' of Inl e \<Rightarrow> Inl e | Inr max_w \<Rightarrow>
         Inr (if length words > max_w then
                [(''platform'', Str (asc ''linkedin'')),
                 (''formatted_text'', Str (join (asc '' '') (take max_w words))),
                 (''length_warning'',
                    Str (asc ''Trimmed LinkedIn post to '' @ str_of_nat max_w @ asc '' words.''))]
              else if length words < min_w then
                [(''platform'', Str (asc ''linkedin'')),
                 (''formatted_text'', Str formatted),
                 (''length_warning'',
                    Str (asc ''LinkedIn post is quite short ('' @ str_of_nat (length words)
                         @ asc '' words).''))]
              else
                [(''platform'', Str (asc ''linkedin'')),
                 (''formatted_text'', Str formatted),
                 (''length_warning'', NoneVal)]))))"

definition format_instagram ::
  "runtime \<Rightarrow> pystr \<Rightarrow> pystr list option \<Rightarrow> error + (string \<times> pyval) list" where
  "format_instagram U raw_text hashtags0 =
     (let caption = strip raw_text
      in case getitem PLATFORM_CONFIG (asc ''instagram'') of Inl e \<Rightarrow> Inl e | Inr cfg \<Rightarrow>
        (let lines = splitlines caption
         in case getitem cfg ''max_lines'' of Inl e \<Rightarrow> Inl e | Inr max_lines \<Rightarrow>
        (let caption = (if length lines > max_lines then join [10] (take max_lines lines)
                        else caption)
         in case getitem cfg ''max_chars'' of Inl e \<Rightarrow> Inl e | Inr max_chars \<Rightarrow>
        (let caption = (if length caption > max_chars then take max_chars caption else caption);
             hashtags = (case hashtags0 of None \<Rightarrow> [] | Some h \<Rightarrow> h);
             cleaned_tags = clean_tags [] hashtags;
             deduped_tags = dedupe_tags U {} [] cleaned_tags;
             hashtag_block = join (asc '' '') deduped_tags;
             full_text = (if hashtag_block \<noteq> [] then caption @ [10, 10] @ hashtag_block
                          else caption)
         in Inr [(''platform'', Str (asc ''instagram'')),
                 (''formatted_text'', Str full_text),
                 (''caption'', Str caption),
                 (''hashtag_block'', Str hashtag_block)]))))"

definition format_email :: "pystr \<Rightarrow> error + (string \<times> pyval) list" where
  "format_email formatted0 =
     (let formatted = normalize_whitespace formatted0;
          words = split_ws formatted
      in case getitem PLATFORM_CONFIG (asc ''email'') of Inl e \<Rightarrow> Inl e | Inr cfg \<Rightarrow>
        (case getitem cfg ''min_words'' of Inl e \<Rightarrow> Inl e | Inr min_w \<Rightarrow>
        (case getitem cfg ''max_words'' of Inl e \<Rightarrow> Inl e | Inr max_w \<Rightarrow>
         Inr (if length words > max_w then
                [(''platform'', Str (asc ''email'')),
                 (''formatted_text'', Str (join (asc '' '') (take max_w words))),
                 (''length_warning'',
                    Str (asc ''Trimmed email blurb to '' @ str_of_nat max_w @ asc '' words.''))]
              else if length words < min_w then
                [(''platform'', Str (asc ''email'')),
                 (''formatted_text'', Str formatted),
                 (''length_warning'',
                    Str (asc ''Email blurb is quite short ('' @ str_of_nat (length words)
                         @ asc '' words).''))]
              else
                [(''platform'', Str (asc ''email'')),
                 (''formatted_text'', Str formatted),
                 (''length_warning'', NoneVal)]))))"

definition platform_formatting_tool ::
  "runtime \<Rightarrow> pystr \<Rightarrow> pystr \<Rightarrow> pystr list option \<Rightarrow> error + (string \<times> pyval) list" where
  "platform_formatting_tool U platform0 text hashtags =
     (let platform = str_lower U platform0;
          raw_text = text
      in if platform \<notin> set (map fst PLATFORM_CONFIG) then
           Inr [(''platform'', Str platform),
                (''formatted_text'', Str (normalize_whitespace raw_text)),
                (''warning'', Str (asc ''Unknown platform; no specific formatting applied.''))]
         else if strip raw_text = [] then
           Inr [(''platform'', Str platform),
                (''formatted_text'', Str (asc ''[EMPTY CONTENT] No text was provided to format.'')),
                (''warning'', Str (asc ''Input text was empty.''))]
         else
           let formatted = strip raw_text
           in if platform = asc ''linkedin'' then format_linkedin formatted
              else if platform = asc ''instagram'' then format_instagram U raw_text hashtags
              else if platform = asc ''email'' then format_email formatted
              else Inr [(''platform'', Str platform),
                        (''formatted_text'', Str (normalize_whitespace raw_text)),
                        (''warning'', Str (asc ''Reached fallback branch of formatter.''))])"

subsection \<open>quality_and_reach_scorer\<close>

text \<open>
  The scores are Python floats written as decimals with one or two places. The model
  reads each literal as the rational it denotes and computes the sum and the quotient
  exactly. The float that the runtime holds for the mean differs from that decimal mean
  by the rounding errors of the binary sum and quotient, which are far smaller than the
  distance of a mean of five or six such values from the next point halfway between two
  hundredths, unless the mean is such a point itself. So \<^verbatim>\<open>round(final_score, 2)\<close> is the
  hundredth nearest to the decimal mean whenever there is just one; when the decimal
  mean is halfway, the binary value lies at, above or below it, depending on the values
  summed and on how the runtime sums them, and the flag \<open>up\<close> (the runtime's \<open>tie_up\<close> at
  the list of values) says which of the two hundredths is returned.
\<close>

definition py_round2 :: "bool \<Rightarrow> rat \<Rightarrow> rat" where
  "py_round2 up q = of_int (round_tie up (q * 100)) / 100"

text \<open>
  \<^verbatim>\<open>re.split(r"(?<=[.!?])\s+", s)\<close>: a match starts right after one of \<^verbatim>\<open>. ! ?\<close> and takes
  the whole run of whitespace that follows; \<open>cur\<close> is the piece being read.
\<close>

function re_split_sentences_acc :: "pystr \<Rightarrow> pystr \<Rightarrow> pystr list" where
  "re_split_sentences_acc cur [] = [cur]"
| "re_split_sentences_acc cur (c # cs) =
     (if (c = 46 \<or> c = 33 \<or> c = 63) \<and> takeWhile isspace cs \<noteq> []
      then (cur @ [c]) # re_split_sentences_acc [] (dropWhile isspace cs)
      else re_split_sentences_acc (cur @ [c]) cs)"
  by pat_completeness auto
termination
  by (relation "measure (\<lambda>(cur, s). length s)") (auto simp: less_Suc_eq_le length_dropWhile_le)

definition re_split_sentences :: "pystr \<Rightarrow> pystr list" where
  "re_split_sentences s = re_split_sentences_acc [] s"

text \<open>
  \<^verbatim>\<open>re.findall(r"#\w+", s)\<close>: \<^verbatim>\<open>\w\<close> is an alphanumeric code point or the underscore, and
  the scan goes on after each match.
\<close>

definition is_word :: "runtime \<Rightarrow> pychar \<Rightarrow> bool" where
  "is_word U c = (isalnum U c \<or> c = 95)"

function findall_hashtags :: "runtime \<Rightarrow> pystr \<Rightarrow> pystr list" where
  "findall_hashtags U [] = []"
| "findall_hashtags U (c # cs) =
     (if c = 35 \<and> takeWhile (is_word U) cs \<noteq> []
      then (c # takeWhile (is_word U) cs) # findall_hashtags U (dropWhile (is_word U) cs)
      else findall_hashtags U cs)"
  by pat_completeness auto
termination
  by (relation "measure (\<lambda>(U, s). length s)") (auto simp: less_Suc_eq_le length_dropWhile_le)

text \<open>
  The four openers of line 312, as the code points the source file holds between the
  quotes.
\<close>

definition HOOK_EMOJI :: "pystr list" where
  "HOOK_EMOJI = [[240, 376, 8221, 165], [226, 339, 168], [240, 376, 8217, 170],
                 [240, 376, 353, 8364]]"

definition cta_phrases :: "pystr list" where
  "cta_phrases = [asc ''share'', asc ''comment'', asc ''tell me'', asc ''let me know'',
                  asc ''join'', asc ''reply'', asc ''dm me'', asc ''reach out'', asc ''connect'']"

text \<open>The dictionary the scorer returns has the same four keys on every path.\<close>

record score_result =
  res_platform :: pystr
  res_score :: rat
  res_dimensions :: "(string \<times> rat option) list"
  res_summary_feedback :: pystr

text \<open>\<^verbatim>\<open>[v for v in dimensions.values() if v is not None]\<close>\<close>

fun numeric_values_of :: "(string \<times> rat option) list \<Rightarrow> rat list" where
  "numeric_values_of [] = []"
| "numeric_values_of ((k, None) # d) = numeric_values_of d"
| "numeric_values_of ((k, Some v) # d) = v # numeric_values_of d"

definition clarity_of :: "pystr \<Rightarrow> pystr list \<Rightarrow> rat" where
  "clarity_of text words =
     (if sublist (asc ''[FALLBACK]'') text then 3 / 10
      else if length words < 15 then 6 / 10
      else 8 / 10)"

definition length_appropriateness_of :: "pystr \<Rightarrow> nat \<Rightarrow> rat" where
  "length_appropriateness_of platform word_count =
     (if platform = asc ''linkedin'' \<or> platform = asc ''email'' then
        (let cfg = dict_get PLATFORM_CONFIG platform [];
             min_w = dict_get cfg ''min_words'' 0;
             max_w = dict_get cfg ''max_words'' (10 ^ 9)
         in if word_count < min_w then 5 / 10
            else if word_count > max_w then 6 / 10
            else 9 / 10)
      else if platform = asc ''instagram'' then
        (if word_count < 10 then 5 / 10
         else if word_count > 120 then 6 / 10
         else 9 / 10)
      else 8 / 10)"

definition hook_strength_of :: "runtime \<Rightarrow> pystr \<Rightarrow> rat" where
  "hook_strength_of U text =
     (let sentences = re_split_sentences (strip text);
          opening = (case sentences of [] \<Rightarrow> text | s # _ \<Rightarrow> s);
          hook_strength = 7 / 10;
          hook_strength = (if 63 \<in> set opening then 85 / 100 else hook_strength);
          hook_strength = (if list_ex (\<lambda>e. sublist e opening) HOOK_EMOJI
                           then max hook_strength (8 / 10) else hook_strength);
          hook_strength = (if list_ex (\<lambda>p. prefix p (str_lower U opening))
                                [asc ''imagine'', asc ''what if'', asc ''ever felt'']
                           then max hook_strength (85 / 100) else hook_strength)
      in hook_strength)"

definition cta_quality_of :: "runtime \<Rightarrow> pystr \<Rightarrow> rat" where
  "cta_quality_of U text =
     (let lower_text = str_lower U text
      in if list_ex (\<lambda>p. sublist p lower_text) cta_phrases then 9 / 10 else 6 / 10)"

definition hashtag_richness_of :: "runtime \<Rightarrow> pystr \<Rightarrow> pystr \<Rightarrow> rat option" where
  "hashtag_richness_of U platform text =
     (if platform = asc ''instagram'' then
        (let tags = findall_hashtags U text
         in if length tags = 0 then Some (4 / 10)
            else if 3 \<le> length tags \<and> length tags \<le> 15 then Some (9 / 10)
            else Some (7 / 10))
      else None)"

definition summary_feedback_of :: "pystr \<Rightarrow> rat \<Rightarrow> rat \<Rightarrow> rat \<Rightarrow> rat option \<Rightarrow> pystr" where
  "summary_feedback_of platform length_appropriateness hook_strength cta_quality hashtag_richness =
     (let feedback_parts =
            (if length_appropriateness < 7 / 10
             then [asc ''Adjust the length to better fit this platform.''] else [])
          @ (if hook_strength < 75 / 100
             then [asc ''Consider a stronger opening line or hook.''] else [])
          @ (if cta_quality < 75 / 100
             then [asc ''Add a clearer call-to-action.''] else [])
          @ (if platform = asc ''instagram'' \<and>
                (case hashtag_richness of None \<Rightarrow> False | Some h \<Rightarrow> h < 7 / 10)
             then [asc ''Add more relevant hashtags to increase reach.''] else [])
      in if feedback_parts = []
         then asc ''Overall, this content is well-structured for the platform.''
         else join (asc '' '') feedback_parts)"

text \<open>
  The function itself. The argument \<^verbatim>\<open>strategy\<close> is never read by the source and is left
  out. Nothing here can raise: the configuration is read with \<^verbatim>\<open>.get\<close>, the first
  sentence is taken under a guard and the division is guarded by the list being
  non-empty.
\<close>

definition quality_and_reach_scorer :: "runtime \<Rightarrow> pystr \<Rightarrow> pystr \<Rightarrow> score_result" where
  "quality_and_reach_scorer U platform0 text0 =
     (let platform = str_lower U platform0;
          text = strip text0
      in if text = [] then
           \<lparr>res_platform = platform, res_score = 0, res_dimensions = [],
            res_summary_feedback = asc ''No text to evaluate.''\<rparr>
         else
           let normalized = normalize_whitespace text;
               words = split_ws normalized;
               word_count = length words;
               clarity = clarity_of text words;
               tone_match = 8 / 10;
               length_appropriateness = length_appropriateness_of platform word_count;
               hook_strength = hook_strength_of U text;
               cta_quality = cta_quality_of U text;
               hashtag_richness = hashtag_richness_of U platform text;
               dimensions =
                 [(''clarity'', Some clarity),
                  (''tone_match'', Some tone_match),
                  (''length_appropriateness'', Some length_appropriateness),
                  (''hook_strength'', Some hook_strength),
                  (''cta_quality'', Some cta_quality),
                  (''hashtag_richness'', hashtag_richness)];
               numeric_values = numeric_values_of dimensions;
               final_score = (if numeric_values \<noteq> []
                              then sum_list numeric_values / of_nat (length numeric_values)
                              else 0)
           in \<lparr>res_platform = platform,
               res_score = py_round2 (tie_up U numeric_values) final_score,
               res_dimensions = dimensions,
               res_summary_feedback =
                 summary_feedback_of platform length_appropriateness hook_strength cta_quality
                   hashtag_richness\<rparr>)"

section \<open>agents.py\<close>

text \<open>
  \<^verbatim>\<open>run_agent\<close> tries the model three times. What the outside world does on attempt \<open>k\<close> is
  the parameter \<open>call\<close>: \<open>Inr content\<close> when the request returns, \<open>Inl msg\<close> when
  anything inside the \<^verbatim>\<open>try\<close> raises, \<open>msg\<close> being \<^verbatim>\<open>str\<close> of the exception. The loop variable
  runs over \<^verbatim>\<open>range(1, MAX_RETRIES + 1)\<close>; printing and sleeping are left out.
\<close>

definition MAX_RETRIES :: nat where
  "MAX_RETRIES = 3"

definition fallback_output :: "pystr option \<Rightarrow> pystr" where
  "fallback_output last_error =
     asc ''[FALLBACK OUTPUT] Unable to generate content due to: ''
     @ (case last_error of None \<Rightarrow> asc ''None'' | Some e \<Rightarrow> e)"

fun run_agent_loop :: "(nat \<Rightarrow> pystr + pystr) \<Rightarrow> nat list \<Rightarrow> pystr option \<Rightarrow> pystr" where
  "run_agent_loop call [] last_error = fallback_output last_error"
| "run_agent_loop call (attempt # rest) last_error =
     (case call attempt of
        Inr content \<Rightarrow> strip content
      | Inl e \<Rightarrow> run_agent_loop call rest (Some e))"

definition run_agent :: "(nat \<Rightarrow> pystr + pystr) \<Rightarrow> pystr" where
  "run_agent call = run_agent_loop call [1..<MAX_RETRIES + 1] None"

section \<open>main.py\<close>

definition REFINEMENT_THRESHOLD :: rat where
  "REFINEMENT_THRESHOLD = 90 / 100"

text \<open>
  The guard of \<^verbatim>\<open>maybe_refine\<close> (line 331) reads the score of the platform's entry, which
  is \<^verbatim>\<open>None\<close> when scoring failed. \<open>needs_refinement\<close> is the negation of that guard.
\<close>

definition needs_refinement :: "rat option \<Rightarrow> bool" where
  "needs_refinement base_score =
     (\<not> (case base_score of None \<Rightarrow> True | Some s \<Rightarrow> s \<ge> REFINEMENT_THRESHOLD))"

definition improvement_prompt :: "pystr \<Rightarrow> pystr \<Rightarrow> pystr \<Rightarrow> pystr" where
  "improvement_prompt platform original_text feedback =
     [10] @ asc ''You are revising a '' @ platform @ asc '' post to improve its quality.''
     @ [10, 10] @ asc ''Original '' @ platform @ asc '' content:''
     @ [10, 34, 34, 34] @ original_text @ [34, 34, 34]
     @ [10, 10] @ asc ''Scoring feedback:''
     @ [10, 34, 34, 34] @ feedback @ [34, 34, 34]
     @ [10, 10] @ asc ''Goal:''
     @ [10] @ asc ''- Keep the same main message''
     @ [10] @ asc ''- Stronger hook in the first line''
     @ [10] @ asc ''- Clearer call-to-action''
     @ [10] @ asc ''- Keep length reasonable for '' @ platform
     @ [10, 10] @ asc ''Rewrite the content accordingly.'' @ [10]"

text \<open>
  \<^verbatim>\<open>maybe_refine\<close> up to its call of the stylist (lines 327-352): either the original text
  is returned at once, or a rewrite is requested with the prompt built from the text and
  the feedback of the platform's entry.
\<close>

datatype refine_step = Keep_original pystr | Request_rewrite pystr

definition maybe_refine :: "pystr \<Rightarrow> pystr \<Rightarrow> rat option \<Rightarrow> pystr \<Rightarrow> refine_step" where
  "maybe_refine platform original_text base_score feedback =
     (if (case base_score of None \<Rightarrow> True | Some s \<Rightarrow> s \<ge> REFINEMENT_THRESHOLD)
      then Keep_original original_text
      else Request_rewrite (improvement_prompt platform original_text feedback))"

section \<open>What the specification measures\<close>

text \<open>
  The number of newline-delimited lines of a text, as \<^verbatim>\<open>len(s.split("\n"))\<close> counts them:
  one more than the number of newline characters.
\<close>

definition newline_lines :: "pystr \<Rightarrow> nat" where
  "newline_lines s = Suc (length (filter (\<lambda>c. c = 10) s))"

text \<open>
  Deduplication that keeps, in order, the first element seen for each key: the words of
  the specification for the hashtag list, with the lower-cased tag as the key.
\<close>

function first_seen :: "('a \<Rightarrow> 'k) \<Rightarrow> 'a list \<Rightarrow> 'a list" where
  "first_seen key [] = []"
| "first_seen key (x # xs) = x # first_seen key (filter (\<lambda>y. key y \<noteq> key x) xs)"
  by pat_completeness auto
termination
  by (relation "measure (\<lambda>(key, xs). length xs)") (auto simp: less_Suc_eq_le)

text \<open>The cleaning of the hashtag list in the words of the specification.\<close>

definition cleaned_tags_spec :: "pystr list \<Rightarrow> pystr list" where
  "cleaned_tags_spec tags =
     map (\<lambda>t. if prefix (asc ''#'') t then t else asc ''#'' @ t)
       (filter (\<lambda>t. t \<noteq> []) (map strip tags))"

text \<open>\<^verbatim>\<open>len(s.split())\<close>, the word count of a text.\<close>

definition word_count :: "pystr \<Rightarrow> nat" where
  "word_count s = length (split_ws s)"

text \<open>
  Two notions for the proofs: whitespace removed at the right end only, and a word as
  \<^verbatim>\<open>split()\<close> returns them, non-empty and free of whitespace.
\<close>

definition rstrip :: "pystr \<Rightarrow> pystr" where
  "rstrip s = rev (dropWhile isspace (rev s))"

definition wordy :: "pystr \<Rightarrow> bool" where
  "wordy w = (w \<noteq> [] \<and> list_all (\<lambda>c. \<not> isspace c) w)"

text \<open>
  Names for the two intermediate values of the instagram branch, with the limits of the
  configuration read off: the caption after both truncations, and the hashtag block.
\<close>

definition instagram_caption :: "pystr \<Rightarrow> pystr" where
  "instagram_caption raw_text =
     (let caption = strip raw_text;
          lines = splitlines caption;
          caption = (if length lines > 10 then join [10] (take 10 lines) else caption)
      in if length caption > 2200 then take 2200 caption else caption)"

definition hashtag_block_of :: "runtime \<Rightarrow> pystr list option \<Rightarrow> pystr" where
  "hashtag_block_of U hashtags =
     join (asc '' '')
       (dedupe_tags U {} [] (clean_tags [] (case hashtags of None \<Rightarrow> [] | Some h \<Rightarrow> h)))"

text \<open>A text of ten lines, used as a concrete input.\<close>

definition ten_lines :: pystr where
  "ten_lines = [97, 10, 97, 10, 97, 10, 97, 10, 97, 10, 97, 10, 97, 10, 97, 10, 97, 10, 97]"

section \<open>Whitespace: strip, split, join and normalisation\<close>

lemma strip_rstrip: "strip s = rstrip (dropWhile isspace s)"
  by (simp add: strip_def rstrip_def)

lemma rstrip_append:
  "rstrip (a @ b) = (if \<forall>c\<in>set b. isspace c then rstrip a else a @ rstrip b)"
  by (simp add: rstrip_def dropWhile_append)

lemma rstrip_Nil [simp]: "rstrip [] = []"
  by (simp add: rstrip_def)

lemma rstrip_word: "w \<noteq> [] \<Longrightarrow> \<not> isspace (last w) \<Longrightarrow> rstrip w = w"
  by (cases w rule: rev_cases) (auto simp: rstrip_def)

lemma isspace_32 [simp]: "isspace 32"
  by (simp add: isspace_def)

lemma split_acc_nonempty: "cur \<noteq> [] \<Longrightarrow> split_acc cur t \<noteq> []"
  by (induction t arbitrary: cur) auto

lemma join_Cons: "ws \<noteq> [] \<Longrightarrow> join sep (w # ws) = w @ sep @ join sep ws"
  by (cases ws) auto

lemma norm_step:
  "(\<forall>cur. cur \<noteq> [] \<and> (\<forall>c\<in>set cur. \<not> isspace c) \<longrightarrow>
      rstrip (cur @ re_sub_ws False t) = join [32] (split_acc cur t))
   \<and> (\<forall>cur. cur \<noteq> [] \<and> (\<forall>c\<in>set cur. \<not> isspace c) \<longrightarrow>
      rstrip (cur @ 32 # re_sub_ws True t) = join [32] (cur # split_acc [] t))"
proof (induction t)
  case Nil
  show ?case
    by (auto simp: rstrip_append rstrip_word)
next
  case (Cons c cs)
  show ?case
  proof (cases "isspace c")
    case True
    with Cons show ?thesis by simp
  next
    case False
    have k: "rstrip (cur @ c # re_sub_ws False cs) = join [32] (split_acc (cur @ [c]) cs)"
      if "\<forall>x\<in>set cur. \<not> isspace x" for cur
      using Cons False that by (auto dest!: spec [where x = "cur @ [c]"])
    have m: "rstrip (cur @ 32 # c # re_sub_ws False cs) = join [32] (cur # split_acc [c] cs)"
      if "cur \<noteq> []" for cur
    proof -
      have "rstrip (cur @ 32 # c # re_sub_ws False cs) = (cur @ [32]) @ rstrip ([c] @ re_sub_ws False cs)"
        using False rstrip_append [of "cur @ [32]" "[c] @ re_sub_ws False cs"] by auto
      also have "rstrip ([c] @ re_sub_ws False cs) = join [32] (split_acc [c] cs)"
        using k [of "[]"] by simp
      finally show ?thesis
        by (simp add: join_Cons split_acc_nonempty)
    qed
    from False k m show ?thesis by simp
  qed
qed

lemma strip_re_sub_ws: "strip (re_sub_ws b t) = join [32] (split_acc [] t)"
proof (induction t arbitrary: b)
  case Nil
  show ?case by (simp add: strip_def)
next
  case (Cons c cs)
  show ?case
  proof (cases "isspace c")
    case True
    have "strip (32 # re_sub_ws True cs) = strip (re_sub_ws True cs)"
      by (simp add: strip_def)
    with True Cons [of True] show ?thesis by simp
  next
    case False
    have "strip (c # re_sub_ws False cs) = rstrip ([c] @ re_sub_ws False cs)"
      using False by (simp add: strip_rstrip)
    also have "\<dots> = join [32] (split_acc [c] cs)"
    proof -
      have "[c] \<noteq> [] \<and> (\<forall>x\<in>set [c]. \<not> isspace x)" using False by simp
      with norm_step [of cs] show ?thesis by blast
    qed
    finally show ?thesis using False by simp
  qed
qed

lemma normalize_whitespace_join: "normalize_whitespace t = join [32] (split_ws t)"
  by (simp add: normalize_whitespace_def split_ws_def strip_re_sub_ws)

lemma split_acc_wordy:
  "list_all (\<lambda>c. \<not> isspace c) cur \<Longrightarrow> list_all wordy (split_acc cur t)"
  by (induction t arbitrary: cur) (auto simp: wordy_def)

lemma split_ws_wordy: "list_all wordy (split_ws t)"
  by (simp add: split_ws_def split_acc_wordy)

lemma split_acc_word:
  "list_all (\<lambda>c. \<not> isspace c) w \<Longrightarrow> split_acc cur (w @ t) = split_acc (cur @ w) t"
  by (induction w arbitrary: cur) auto

lemma split_acc_wordy_first:
  "wordy w \<Longrightarrow> split_acc [] (w @ 32 # t) = w # split_acc [] t"
proof -
  assume w: "wordy w"
  then have "split_acc [] (w @ 32 # t) = split_acc ([] @ w) (32 # t)"
    by (intro split_acc_word) (simp add: wordy_def)
  with w show ?thesis by (simp add: wordy_def)
qed

lemma split_acc_wordy_only: "wordy w \<Longrightarrow> split_acc [] w = [w]"
proof -
  assume w: "wordy w"
  then have "split_acc [] (w @ []) = split_acc ([] @ w) []"
    by (intro split_acc_word) (simp add: wordy_def)
  with w show ?thesis by (simp add: wordy_def)
qed

lemma split_ws_join: "list_all wordy ws \<Longrightarrow> split_ws (join [32] ws) = ws"
proof (induction ws)
  case Nil
  show ?case by (simp add: split_ws_def)
next
  case (Cons w ws)
  show ?case
  proof (cases ws)
    case Nil
    with Cons.prems show ?thesis by (simp add: split_ws_def split_acc_wordy_only)
  next
    case (Cons y ys)
    with Cons.prems Cons.IH show ?thesis
      by (simp add: split_ws_def split_acc_wordy_first)
  qed
qed

lemma split_ws_normalize: "split_ws (normalize_whitespace t) = split_ws t"
  by (simp add: normalize_whitespace_join split_ws_join split_ws_wordy)

lemma normalize_whitespace_idem: "normalize_whitespace (normalize_whitespace t) = normalize_whitespace t"
  by (simp add: normalize_whitespace_join split_ws_join split_ws_wordy)

lemma split_acc_lstrip: "split_acc [] (dropWhile isspace t) = split_acc [] t"
  by (induction t) auto

lemma split_acc_spaces: "\<forall>c\<in>set sp. isspace c \<Longrightarrow> split_acc cur sp = (if cur = [] then [] else [cur])"
  by (induction sp arbitrary: cur) auto

lemma split_acc_trailing: "\<forall>c\<in>set sp. isspace c \<Longrightarrow> split_acc cur (u @ sp) = split_acc cur u"
  by (induction u arbitrary: cur) (auto simp: split_acc_spaces)

lemma rstrip_decomp: "\<exists>sp. (\<forall>c\<in>set sp. isspace c) \<and> t = rstrip t @ sp"
proof -
  have "rev t = takeWhile isspace (rev t) @ dropWhile isspace (rev t)" by simp
  then have "t = rstrip t @ rev (takeWhile isspace (rev t))"
    unfolding rstrip_def by (metis rev_append rev_rev_ident)
  moreover have "\<forall>c\<in>set (rev (takeWhile isspace (rev t))). isspace c"
    by (auto dest: set_takeWhileD)
  ultimately show ?thesis by blast
qed

lemma split_acc_rstrip: "split_acc cur (rstrip t) = split_acc cur t"
  using rstrip_decomp [of t] split_acc_trailing by metis

lemma split_ws_strip: "split_ws (strip t) = split_ws t"
  by (simp add: split_ws_def strip_rstrip split_acc_rstrip split_acc_lstrip)

lemma normalize_whitespace_strip: "normalize_whitespace (strip t) = normalize_whitespace t"
  by (simp add: normalize_whitespace_join split_ws_strip)

lemma list_all_take: "list_all P xs \<Longrightarrow> list_all P (take n xs)"
  by (auto simp: list_all_iff dest: in_set_takeD)

lemma all_dropWhile: "(\<forall>x\<in>set (dropWhile P t). P x) \<longleftrightarrow> (\<forall>x\<in>set t. P x)"
  by (induction t) auto

lemma strip_Nil_iff: "strip t = [] \<longleftrightarrow> (\<forall>c\<in>set t. isspace c)"
  by (simp add: strip_def all_dropWhile)

lemma split_acc_Nil_iff: "split_acc cur t = [] \<longleftrightarrow> cur = [] \<and> (\<forall>c\<in>set t. isspace c)"
  by (induction t arbitrary: cur) auto

lemma split_ws_Nil_iff: "split_ws t = [] \<longleftrightarrow> strip t = []"
  by (simp add: split_ws_def split_acc_Nil_iff strip_Nil_iff)

section \<open>The formatter: configuration and branches\<close>

lemma asc_space [simp]: "asc '' '' = [32]"
  by (simp add: asc_def)

lemma in_config:
  "p \<in> fst ` set PLATFORM_CONFIG \<longleftrightarrow>
     p = asc ''linkedin'' \<or> p = asc ''instagram'' \<or> p = asc ''email''"
  by (auto simp: PLATFORM_CONFIG_def)

lemma platform_names_distinct:
  "asc ''linkedin'' \<noteq> asc ''instagram''" "asc ''linkedin'' \<noteq> asc ''email''"
  "asc ''instagram'' \<noteq> asc ''email''" "asc ''instagram'' \<noteq> asc ''linkedin''"
  "asc ''email'' \<noteq> asc ''linkedin''" "asc ''email'' \<noteq> asc ''instagram''"
  by (simp_all add: asc_def)

lemma config_linkedin:
  "getitem PLATFORM_CONFIG (asc ''linkedin'') = Inr [(''min_words'', 80), (''max_words'', 220)]"
  by (simp add: getitem_def PLATFORM_CONFIG_def)

lemma config_instagram:
  "getitem PLATFORM_CONFIG (asc ''instagram'') = Inr [(''max_chars'', 2200), (''max_lines'', 10)]"
  by (simp add: getitem_def PLATFORM_CONFIG_def platform_names_distinct)

lemma config_email:
  "getitem PLATFORM_CONFIG (asc ''email'') = Inr [(''min_words'', 40), (''max_words'', 160)]"
  by (simp add: getitem_def PLATFORM_CONFIG_def platform_names_distinct)

lemma getitem_Cons: "getitem ((k, v) # d) k' = (if k = k' then Inr v else getitem d k')"
  by (simp add: getitem_def)

lemma str_of_nat_220: "str_of_nat 220 = asc ''220''"
  by (simp add: str_of_nat.simps asc_def)

lemma str_of_nat_160: "str_of_nat 160 = asc ''160''"
  by (simp add: str_of_nat.simps asc_def)

lemma format_linkedin_eq:
  "format_linkedin t =
     Inr [(''platform'', Str (asc ''linkedin'')),
          (''formatted_text'',
             Str (if 220 < word_count t then join [32] (take 220 (split_ws t))
                  else normalize_whitespace t)),
          (''length_warning'',
             (if 220 < word_count t then Str (asc ''Trimmed LinkedIn post to 220 words.'')
              else if word_count t < 80
              then Str (asc ''LinkedIn post is quite short ('' @ str_of_nat (word_count t)
                        @ asc '' words).'')
              else NoneVal))]"
proof -
  have "asc ''Trimmed LinkedIn post to '' @ str_of_nat 220 @ asc '' words.''
      = asc ''Trimmed LinkedIn post to 220 words.''"
    by (simp add: str_of_nat_220) (simp add: asc_def)
  then show ?thesis
    by (simp add: format_linkedin_def config_linkedin getitem_Cons Let_def word_count_def
        split_ws_normalize)
qed

lemma format_email_eq:
  "format_email t =
     Inr [(''platform'', Str (asc ''email'')),
          (''formatted_text'',
             Str (if 160 < word_count t then join [32] (take 160 (split_ws t))
                  else normalize_whitespace t)),
          (''length_warning'',
             (if 160 < word_count t then Str (asc ''Trimmed email blurb to 160 words.'')
              else if word_count t < 40
              then Str (asc ''Email blurb is quite short ('' @ str_of_nat (word_count t)
                        @ asc '' words).'')
              else NoneVal))]"
proof -
  have "asc ''Trimmed email blurb to '' @ str_of_nat 160 @ asc '' words.''
      = asc ''Trimmed email blurb to 160 words.''"
    by (simp add: str_of_nat_160) (simp add: asc_def)
  then show ?thesis
    by (simp add: format_email_def config_email getitem_Cons Let_def word_count_def
        split_ws_normalize)
qed

lemma word_count_strip: "word_count (strip t) = word_count t"
  by (simp add: word_count_def split_ws_strip)

lemma split_ws_take_join: "split_ws (join [32] (take n (split_ws t))) = take n (split_ws t)"
  by (simp add: split_ws_join list_all_take split_ws_wordy)

lemma normalize_take_join:
  "normalize_whitespace (join [32] (take n (split_ws t))) = join [32] (take n (split_ws t))"
  by (simp add: normalize_whitespace_join split_ws_take_join)

lemma format_instagram_Inr: "\<exists>r. format_instagram U raw_text hashtags = Inr r"
  by (simp add: format_instagram_def config_instagram getitem_Cons Let_def)

lemma tool_unknown:
  "str_lower U platform \<notin> {asc ''linkedin'', asc ''instagram'', asc ''email''} \<Longrightarrow>
   platform_formatting_tool U platform text hashtags =
     Inr [(''platform'', Str (str_lower U platform)),
          (''formatted_text'', Str (normalize_whitespace text)),
          (''warning'', Str (asc ''Unknown platform; no specific formatting applied.''))]"
  by (simp add: platform_formatting_tool_def in_config Let_def)

lemma tool_empty:
  "str_lower U platform \<in> {asc ''linkedin'', asc ''instagram'', asc ''email''} \<Longrightarrow>
   strip text = [] \<Longrightarrow>
   platform_formatting_tool U platform text hashtags =
     Inr [(''platform'', Str (str_lower U platform)),
          (''formatted_text'', Str (asc ''[EMPTY CONTENT] No text was provided to format.'')),
          (''warning'', Str (asc ''Input text was empty.''))]"
  by (auto simp: platform_formatting_tool_def in_config Let_def)

lemma tool_linkedin:
  "str_lower U platform = asc ''linkedin'' \<Longrightarrow> strip text \<noteq> [] \<Longrightarrow>
   platform_formatting_tool U platform text hashtags = format_linkedin (strip text)"
  by (simp add: platform_formatting_tool_def in_config Let_def)

lemma tool_instagram:
  "str_lower U platform = asc ''instagram'' \<Longrightarrow> strip text \<noteq> [] \<Longrightarrow>
   platform_formatting_tool U platform text hashtags = format_instagram U text hashtags"
  by (simp add: platform_formatting_tool_def in_config Let_def platform_names_distinct)

lemma tool_email:
  "str_lower U platform = asc ''email'' \<Longrightarrow> strip text \<noteq> [] \<Longrightarrow>
   platform_formatting_tool U platform text hashtags = format_email (strip text)"
  by (simp add: platform_formatting_tool_def in_config Let_def platform_names_distinct)

text \<open>
  Claim C9. The formatter never fails: on \<^verbatim>\<open>str\<close> arguments it always returns a
  dictionary. For a platform whose lower-cased name is not a key of the configuration it
  returns the whitespace-normalised text with the warning that no specific formatting
  was applied; for a known platform and a text that is empty after trimming it returns
  the placeholder \<^verbatim>\<open>[EMPTY CONTENT] No text was provided to format.\<close> with a warning.
\<close>

theorem formatter_never_fails:
  "(\<exists>r. platform_formatting_tool U platform text hashtags = Inr r)
   \<and> (str_lower U platform \<notin> {asc ''linkedin'', asc ''instagram'', asc ''email''} \<longrightarrow>
        platform_formatting_tool U platform text hashtags =
          Inr [(''platform'', Str (str_lower U platform)),
               (''formatted_text'', Str (normalize_whitespace text)),
               (''warning'', Str (asc ''Unknown platform; no specific formatting applied.''))])
   \<and> (str_lower U platform \<in> {asc ''linkedin'', asc ''instagram'', asc ''email''}
        \<and> strip text = [] \<longrightarrow>
        platform_formatting_tool U platform text hashtags =
          Inr [(''platform'', Str (str_lower U platform)),
               (''formatted_text'', Str (asc ''[EMPTY CONTENT] No text was provided to format.'')),
               (''warning'', Str (asc ''Input text was empty.''))])"
proof -
  have total: "\<exists>r. platform_formatting_tool U platform text hashtags = Inr r"
  proof (cases "str_lower U platform \<in> {asc ''linkedin'', asc ''instagram'', asc ''email''}")
    case False
    then show ?thesis by (simp add: tool_unknown)
  next
    case known: True
    show ?thesis
    proof (cases "strip text = []")
      case True
      with known show ?thesis by (simp add: tool_empty)
    next
      case False
      with known consider
        "platform_formatting_tool U platform text hashtags = format_linkedin (strip text)"
        | "platform_formatting_tool U platform text hashtags = format_instagram U text hashtags"
        | "platform_formatting_tool U platform text hashtags = format_email (strip text)"
        using tool_linkedin tool_instagram tool_email by blast
      then show ?thesis
        by cases (simp_all add: format_linkedin_eq format_email_eq format_instagram_Inr)
    qed
  qed
  show ?thesis using total tool_unknown tool_empty by blast
qed

lemma ascii_lower_TikTok: "str_lower ascii_db (asc ''TikTok'') = asc ''tiktok''"
  by (simp add: ascii_db_def ascii_lower_def asc_def)

lemma ascii_lower_Email: "str_lower ascii_db (asc ''Email'') = asc ''email''"
  by (simp add: ascii_db_def ascii_lower_def asc_def)

lemma normalize_hi_there: "normalize_whitespace (asc ''  hi   there '') = asc ''hi there''"
  by (simp add: normalize_whitespace_def strip_def asc_def isspace_def)

theorem formatter_never_fails_witness:
  "platform_formatting_tool ascii_db (asc ''TikTok'')
      (asc ''  hi   there '') None =
     Inr [(''platform'', Str (asc ''tiktok'')),
          (''formatted_text'', Str (asc ''hi there'')),
          (''warning'', Str (asc ''Unknown platform; no specific formatting applied.''))]
   \<and> platform_formatting_tool ascii_db (asc ''Email'') [32, 10, 9] (Some []) =
     Inr [(''platform'', Str (asc ''email'')),
          (''formatted_text'', Str (asc ''[EMPTY CONTENT] No text was provided to format.'')),
          (''warning'', Str (asc ''Input text was empty.''))]"
proof -
  have u: "asc ''tiktok'' \<notin> {asc ''linkedin'', asc ''instagram'', asc ''email''}"
    by (simp add: asc_def)
  have e: "strip [32, 10, 9] = []"
    by (simp add: strip_def isspace_def)
  show ?thesis
    using formatter_never_fails [of ascii_db "asc ''TikTok''"
            "asc ''  hi   there ''" None]
          formatter_never_fails [of ascii_db "asc ''Email''" "[32, 10, 9]" "Some []"]
          u e
    by (simp add: ascii_lower_TikTok ascii_lower_Email normalize_hi_there)
qed

section \<open>The word limits of linkedin and email\<close>

lemma word_count_take_join:
  "word_count (join [32] (take n (split_ws t))) = min (word_count t) n"
  by (simp add: word_count_def split_ws_take_join)

lemma word_count_normalize: "word_count (normalize_whitespace t) = word_count t"
  by (simp add: word_count_def split_ws_normalize)

text \<open>
  Claim C7. For linkedin and email and a text that is not empty after trimming, the
  formatted text is whitespace-normalised and has at most the configured maximum of
  words (220 and 160). When the text has more words, the result is exactly the first
  220 (160) words joined by single spaces, with the trimmed warning; otherwise the
  content is the normalised text, unchanged, with the too-short warning when it has
  fewer than 80 (40) words and no warning else.
\<close>

theorem formatter_word_limit:
  assumes nonempty: "strip text \<noteq> []"
  shows "(str_lower U platform = asc ''linkedin'' \<longrightarrow>
          (\<exists>ft lw. platform_formatting_tool U platform text hashtags =
                    Inr [(''platform'', Str (asc ''linkedin'')), (''formatted_text'', Str ft),
                         (''length_warning'', lw)]
             \<and> word_count ft \<le> 220 \<and> normalize_whitespace ft = ft
             \<and> (if 220 < word_count text
                 then ft = join (asc '' '') (take 220 (split_ws text))
                    \<and> split_ws ft = take 220 (split_ws text) \<and> word_count ft = 220
                    \<and> lw = Str (asc ''Trimmed LinkedIn post to 220 words.'')
                 else ft = normalize_whitespace text
                    \<and> lw = (if word_count text < 80
                             then Str (asc ''LinkedIn post is quite short (''
                                       @ str_of_nat (word_count text) @ asc '' words).'')
                             else NoneVal))))
       \<and> (str_lower U platform = asc ''email'' \<longrightarrow>
          (\<exists>ft lw. platform_formatting_tool U platform text hashtags =
                    Inr [(''platform'', Str (asc ''email'')), (''formatted_text'', Str ft),
                         (''length_warning'', lw)]
             \<and> word_count ft \<le> 160 \<and> normalize_whitespace ft = ft
             \<and> (if 160 < word_count text
                 then ft = join (asc '' '') (take 160 (split_ws text))
                    \<and> split_ws ft = take 160 (split_ws text) \<and> word_count ft = 160
                    \<and> lw = Str (asc ''Trimmed email blurb to 160 words.'')
                 else ft = normalize_whitespace text
                    \<and> lw = (if word_count text < 40
                             then Str (asc ''Email blurb is quite short (''
                                       @ str_of_nat (word_count text) @ asc '' words).'')
                             else NoneVal))))"
proof (intro conjI impI)
  assume p: "str_lower U platform = asc ''linkedin''"
  show "\<exists>ft lw. platform_formatting_tool U platform text hashtags =
                    Inr [(''platform'', Str (asc ''linkedin'')), (''formatted_text'', Str ft),
                         (''length_warning'', lw)]
             \<and> word_count ft \<le> 220 \<and> normalize_whitespace ft = ft
             \<and> (if 220 < word_count text
                 then ft = join (asc '' '') (take 220 (split_ws text))
                    \<and> split_ws ft = take 220 (split_ws text) \<and> word_count ft = 220
                    \<and> lw = Str (asc ''Trimmed LinkedIn post to 220 words.'')
                 else ft = normalize_whitespace text
                    \<and> lw = (if word_count text < 80
                             then Str (asc ''LinkedIn post is quite short (''
                                       @ str_of_nat (word_count text) @ asc '' words).'')
                             else NoneVal))"
  proof (cases "220 < word_count text")
    case True
    then show ?thesis
      by (simp add: tool_linkedin [OF p nonempty] format_linkedin_eq word_count_strip
          split_ws_strip split_ws_take_join normalize_take_join word_count_take_join)
  next
    case False
    then show ?thesis
      by (simp add: tool_linkedin [OF p nonempty] format_linkedin_eq word_count_strip
          normalize_whitespace_strip normalize_whitespace_idem word_count_normalize)
  qed
next
  assume p: "str_lower U platform = asc ''email''"
  show "\<exists>ft lw. platform_formatting_tool U platform text hashtags =
                    Inr [(''platform'', Str (asc ''email'')), (''formatted_text'', Str ft),
                         (''length_warning'', lw)]
             \<and> word_count ft \<le> 160 \<and> normalize_whitespace ft = ft
             \<and> (if 160 < word_count text
                 then ft = join (asc '' '') (take 160 (split_ws text))
                    \<and> split_ws ft = take 160 (split_ws text) \<and> word_count ft = 160
                    \<and> lw = Str (asc ''Trimmed email blurb to 160 words.'')
                 else ft = normalize_whitespace text
                    \<and> lw = (if word_count text < 40
                             then Str (asc ''Email blurb is quite short (''
                                       @ str_of_nat (word_count text) @ asc '' words).'')
                             else NoneVal))"
  proof (cases "160 < word_count text")
    case True
    then show ?thesis
      by (simp add: tool_email [OF p nonempty] format_email_eq word_count_strip
          split_ws_strip split_ws_take_join normalize_take_join word_count_take_join)
  next
    case False
    then show ?thesis
      by (simp add: tool_email [OF p nonempty] format_email_eq word_count_strip
          normalize_whitespace_strip normalize_whitespace_idem word_count_normalize)
  qed
qed

lemma ascii_lower_LinkedIn: "str_lower ascii_db (asc ''LinkedIn'') = asc ''linkedin''"
  by (simp add: ascii_db_def ascii_lower_def asc_def)

lemma strip_hi_there: "strip (asc ''  hi   there '') \<noteq> []"
  by (simp add: strip_def asc_def isspace_def)

lemma word_count_hi_there: "word_count (asc ''  hi   there '') = 2"
  by (simp add: word_count_def split_ws_def asc_def isspace_def)

lemma str_of_nat_2: "str_of_nat 2 = asc ''2''"
  by (simp add: str_of_nat.simps asc_def)

theorem formatter_word_limit_witness:
  "platform_formatting_tool ascii_db (asc ''LinkedIn'') (asc ''  hi   there '') None =
     Inr [(''platform'', Str (asc ''linkedin'')), (''formatted_text'', Str (asc ''hi there'')),
          (''length_warning'', Str (asc ''LinkedIn post is quite short (2 words).''))]
   \<and> platform_formatting_tool ascii_db (asc ''Email'') (asc ''  hi   there '') None =
     Inr [(''platform'', Str (asc ''email'')), (''formatted_text'', Str (asc ''hi there'')),
          (''length_warning'', Str (asc ''Email blurb is quite short (2 words).''))]"
proof -
  have s: "asc ''LinkedIn post is quite short ('' @ asc ''2'' @ asc '' words).''
           = asc ''LinkedIn post is quite short (2 words).''"
    "asc ''Email blurb is quite short ('' @ asc ''2'' @ asc '' words).''
           = asc ''Email blurb is quite short (2 words).''"
    by (simp_all add: asc_def)
  show ?thesis
    using formatter_word_limit [OF strip_hi_there, of ascii_db "asc ''LinkedIn''" None]
          formatter_word_limit [OF strip_hi_there, of ascii_db "asc ''Email''" None]
    by (auto simp: ascii_lower_LinkedIn ascii_lower_Email platform_names_distinct
        word_count_hi_there normalize_hi_there str_of_nat_2 s)
qed

section \<open>The scorer\<close>

lemma scorer_empty:
  "strip text = [] \<Longrightarrow>
   quality_and_reach_scorer U platform text =
     \<lparr>res_platform = str_lower U platform, res_score = 0, res_dimensions = [],
      res_summary_feedback = asc ''No text to evaluate.''\<rparr>"
  by (simp add: quality_and_reach_scorer_def Let_def)

lemma scorer_dimensions:
  "strip text \<noteq> [] \<Longrightarrow>
   res_dimensions (quality_and_reach_scorer U platform text) =
     [(''clarity'', Some (clarity_of (strip text) (split_ws (normalize_whitespace (strip text))))),
      (''tone_match'', Some (8 / 10)),
      (''length_appropriateness'',
         Some (length_appropriateness_of (str_lower U platform)
                 (length (split_ws (normalize_whitespace (strip text)))))),
      (''hook_strength'', Some (hook_strength_of U (strip text))),
      (''cta_quality'', Some (cta_quality_of U (strip text))),
      (''hashtag_richness'', hashtag_richness_of U (str_lower U platform) (strip text))]"
  by (simp add: quality_and_reach_scorer_def Let_def)

lemma scorer_score:
  "strip text \<noteq> [] \<Longrightarrow>
   res_score (quality_and_reach_scorer U platform text) =
     py_round2 (tie_up U (numeric_values_of (res_dimensions (quality_and_reach_scorer U platform text))))
               (sum_list (numeric_values_of (res_dimensions (quality_and_reach_scorer U platform text)))
                / of_nat (length (numeric_values_of (res_dimensions (quality_and_reach_scorer U platform text)))))"
proof -
  assume a: "strip text \<noteq> []"
  have ne: "numeric_values_of (res_dimensions (quality_and_reach_scorer U platform text)) \<noteq> []"
    by (simp add: scorer_dimensions [OF a])
  show ?thesis
    using a ne
    by (simp add: quality_and_reach_scorer_def Let_def)
qed

lemma hashtag_instagram_cases:
  "hashtag_richness_of U (asc ''instagram'') t = Some (4 / 10)
   \<or> hashtag_richness_of U (asc ''instagram'') t = Some (9 / 10)
   \<or> hashtag_richness_of U (asc ''instagram'') t = Some (7 / 10)"
  by (simp add: hashtag_richness_of_def Let_def)

lemma hashtag_instagram:
  "\<exists>g. hashtag_richness_of U (asc ''instagram'') t = Some g \<and> g \<le> 9 / 10 \<and> 4 / 10 \<le> g"
proof -
  consider "hashtag_richness_of U (asc ''instagram'') t = Some (4 / 10)"
    | "hashtag_richness_of U (asc ''instagram'') t = Some (9 / 10)"
    | "hashtag_richness_of U (asc ''instagram'') t = Some (7 / 10)"
    using hashtag_instagram_cases by blast
  then show ?thesis
  proof cases
    case 1
    have "(4 / 10 :: rat) \<le> 9 / 10 \<and> (4 / 10 :: rat) \<le> 4 / 10" by simp
    with 1 show ?thesis by blast
  next
    case 2
    have "(9 / 10 :: rat) \<le> 9 / 10 \<and> (4 / 10 :: rat) \<le> 9 / 10" by simp
    with 2 show ?thesis by blast
  next
    case 3
    have "(7 / 10 :: rat) \<le> 9 / 10 \<and> (4 / 10 :: rat) \<le> 7 / 10" by simp
    with 3 show ?thesis by blast
  qed
qed

lemma hashtag_other:
  "p \<noteq> asc ''instagram'' \<Longrightarrow> hashtag_richness_of U p t = None"
  by (simp add: hashtag_richness_of_def)

lemma clarity_bounds: "3 / 10 \<le> clarity_of t ws \<and> clarity_of t ws \<le> 8 / 10"
  by (simp add: clarity_of_def)

lemma length_bounds:
  "5 / 10 \<le> length_appropriateness_of p n \<and> length_appropriateness_of p n \<le> 9 / 10"
  by (simp add: length_appropriateness_of_def Let_def)

lemma hook_bounds: "7 / 10 \<le> hook_strength_of U t \<and> hook_strength_of U t \<le> 85 / 100"
  by (simp add: hook_strength_of_def Let_def)

lemma cta_bounds: "6 / 10 \<le> cta_quality_of U t \<and> cta_quality_of U t \<le> 9 / 10"
  by (simp add: cta_quality_of_def Let_def)

text \<open>
  Claim C5. For every platform identifier and every text that is empty or only
  whitespace after trimming, the scorer returns the score 0.0, an empty dimensions
  mapping and the feedback \<^verbatim>\<open>No text to evaluate.\<close>; nothing else of the function is
  computed on that path.
\<close>

theorem scorer_empty_text:
  "strip text = [] \<longrightarrow>
   quality_and_reach_scorer U platform text =
     \<lparr>res_platform = str_lower U platform, res_score = 0, res_dimensions = [],
      res_summary_feedback = asc ''No text to evaluate.''\<rparr>"
  by (simp add: scorer_empty)

lemma strip_blank: "strip [32, 10, 9] = []"
  by (simp add: strip_def isspace_def)

lemma strip_Nil: "strip [] = []"
  by (simp add: strip_def)

theorem scorer_empty_text_witness:
  "quality_and_reach_scorer ascii_db (asc ''LinkedIn'') [32, 10, 9] =
     \<lparr>res_platform = asc ''linkedin'', res_score = 0, res_dimensions = [],
      res_summary_feedback = asc ''No text to evaluate.''\<rparr>
   \<and> quality_and_reach_scorer ascii_db (asc ''TikTok'') [] =
     \<lparr>res_platform = asc ''tiktok'', res_score = 0, res_dimensions = [],
      res_summary_feedback = asc ''No text to evaluate.''\<rparr>"
  using scorer_empty_text [of "[32, 10, 9]" ascii_db "asc ''LinkedIn''"]
        scorer_empty_text [of "[]" ascii_db "asc ''TikTok''"]
  by (simp add: strip_blank strip_Nil ascii_lower_LinkedIn ascii_lower_TikTok)

text \<open>
  Claim C4. For a text that is not empty after trimming, the dimensions mapping has six
  present values when the platform is instagram, and five when it is linkedin or email:
  there the entry of \<^verbatim>\<open>hashtag_richness\<close> is absent (the key maps to \<^verbatim>\<open>None\<close>).
\<close>

theorem scorer_dimension_count:
  assumes "strip text \<noteq> []"
  shows "(str_lower U platform = asc ''instagram'' \<longrightarrow>
           (\<exists>c t l h q g. res_dimensions (quality_and_reach_scorer U platform text) =
               [(''clarity'', Some c), (''tone_match'', Some t),
                (''length_appropriateness'', Some l), (''hook_strength'', Some h),
                (''cta_quality'', Some q), (''hashtag_richness'', Some g)])
           \<and> length (numeric_values_of (res_dimensions (quality_and_reach_scorer U platform text))) = 6)
       \<and> (str_lower U platform = asc ''linkedin'' \<or> str_lower U platform = asc ''email'' \<longrightarrow>
           (\<exists>c t l h q. res_dimensions (quality_and_reach_scorer U platform text) =
               [(''clarity'', Some c), (''tone_match'', Some t),
                (''length_appropriateness'', Some l), (''hook_strength'', Some h),
                (''cta_quality'', Some q), (''hashtag_richness'', None)])
           \<and> length (numeric_values_of (res_dimensions (quality_and_reach_scorer U platform text))) = 5)"
proof (intro conjI impI)
  assume p: "str_lower U platform = asc ''instagram''"
  obtain g where g: "hashtag_richness_of U (asc ''instagram'') (strip text) = Some g"
    using hashtag_instagram by blast
  show "\<exists>c t l h q g. res_dimensions (quality_and_reach_scorer U platform text) =
               [(''clarity'', Some c), (''tone_match'', Some t),
                (''length_appropriateness'', Some l), (''hook_strength'', Some h),
                (''cta_quality'', Some q), (''hashtag_richness'', Some g)]"
    unfolding scorer_dimensions [OF assms] p g by blast
  show "length (numeric_values_of (res_dimensions (quality_and_reach_scorer U platform text))) = 6"
    by (simp add: scorer_dimensions [OF assms] p g)
next
  assume "str_lower U platform = asc ''linkedin'' \<or> str_lower U platform = asc ''email''"
  then have "str_lower U platform \<noteq> asc ''instagram''"
    using platform_names_distinct by auto
  then have g: "hashtag_richness_of U (str_lower U platform) (strip text) = None"
    by (rule hashtag_other)
  show "\<exists>c t l h q. res_dimensions (quality_and_reach_scorer U platform text) =
               [(''clarity'', Some c), (''tone_match'', Some t),
                (''length_appropriateness'', Some l), (''hook_strength'', Some h),
                (''cta_quality'', Some q), (''hashtag_richness'', None)]"
    unfolding scorer_dimensions [OF assms] g by blast
  show "length (numeric_values_of (res_dimensions (quality_and_reach_scorer U platform text))) = 5"
    by (simp add: scorer_dimensions [OF assms] g)
qed

lemma ascii_lower_Instagram: "str_lower ascii_db (asc ''Instagram'') = asc ''instagram''"
  by (simp add: ascii_db_def ascii_lower_def asc_def)

lemma strip_hi: "strip (asc ''hi'') \<noteq> []"
  by (simp add: strip_def asc_def isspace_def)

theorem scorer_dimension_count_witness:
  "length (numeric_values_of
      (res_dimensions (quality_and_reach_scorer ascii_db (asc ''Instagram'') (asc ''hi'')))) = 6
   \<and> length (numeric_values_of
      (res_dimensions (quality_and_reach_scorer ascii_db (asc ''LinkedIn'') (asc ''hi'')))) = 5
   \<and> length (numeric_values_of
      (res_dimensions (quality_and_reach_scorer ascii_db (asc ''Email'') (asc ''hi'')))) = 5"
  using scorer_dimension_count [OF strip_hi, of ascii_db "asc ''Instagram''"]
        scorer_dimension_count [OF strip_hi, of ascii_db "asc ''LinkedIn''"]
        scorer_dimension_count [OF strip_hi, of ascii_db "asc ''Email''"]
  by (simp add: ascii_lower_Instagram ascii_lower_LinkedIn ascii_lower_Email)

section \<open>Rounding\<close>

lemma round_tie_le: "x \<le> of_int n \<Longrightarrow> round_tie up x \<le> n"
proof -
  assume a: "x \<le> of_int n"
  then have f: "\<lfloor>x\<rfloor> \<le> n" by linarith
  show ?thesis
  proof (cases "\<lfloor>x\<rfloor> = n")
    case True
    with a have "x - of_int \<lfloor>x\<rfloor> \<le> 0" by simp
    then have "x - of_int \<lfloor>x\<rfloor> < 1 / 2" by linarith
    with True show ?thesis by (simp add: round_tie_def Let_def)
  next
    case False
    with f have "\<lfloor>x\<rfloor> + 1 \<le> n" by simp
    then show ?thesis by (simp add: round_tie_def Let_def)
  qed
qed

lemma round_tie_near: "\<bar>of_int (round_tie up x) - x\<bar> \<le> 1 / 2"
proof -
  have "of_int \<lfloor>x\<rfloor> \<le> x" "x < of_int \<lfloor>x\<rfloor> + 1" by linarith+
  then show ?thesis
    by (auto simp: round_tie_def Let_def abs_le_iff)
qed

lemma py_round2_le: "x \<le> of_int n / 100 \<Longrightarrow> py_round2 up x \<le> of_int n / 100"
proof -
  assume "x \<le> of_int n / 100"
  then have "x * 100 \<le> of_int n" by simp
  then have "round_tie up (x * 100) \<le> n" by (rule round_tie_le)
  then show ?thesis by (simp add: py_round2_def divide_le_cancel)
qed

lemma py_round2_near: "\<bar>py_round2 up x - x\<bar> \<le> 1 / 200"
proof -
  have "\<bar>of_int (round_tie up (x * 100)) - x * 100\<bar> \<le> 1 / 2"
    by (rule round_tie_near)
  then have "\<bar>(of_int (round_tie up (x * 100)) - x * 100) / 100\<bar> \<le> (1 / 2) / 100"
    by (simp only: abs_divide) simp
  then show ?thesis by (simp add: py_round2_def diff_divide_distrib)
qed

lemma py_round2_hundredth: "\<exists>k::int. py_round2 up x = of_int k / 100"
  by (auto simp: py_round2_def)

section \<open>The score and the refinement threshold\<close>

lemma scorer_numeric_values:
  "strip text \<noteq> [] \<Longrightarrow>
   numeric_values_of (res_dimensions (quality_and_reach_scorer U platform text)) =
     [clarity_of (strip text) (split_ws (normalize_whitespace (strip text))),
      8 / 10,
      length_appropriateness_of (str_lower U platform)
        (length (split_ws (normalize_whitespace (strip text)))),
      hook_strength_of U (strip text),
      cta_quality_of U (strip text)]
     @ (case hashtag_richness_of U (str_lower U platform) (strip text) of
          None \<Rightarrow> [] | Some g \<Rightarrow> [g])"
  by (simp add: scorer_dimensions split: option.split)

lemma hashtag_le:
  "hashtag_richness_of U p t = Some g \<Longrightarrow> g \<le> 9 / 10"
  by (auto simp: hashtag_richness_of_def Let_def split: if_splits)

lemma scorer_values_bounded:
  assumes "strip text \<noteq> []"
  shows "list_all (\<lambda>v. v \<le> 9 / 10)
           (numeric_values_of (res_dimensions (quality_and_reach_scorer U platform text)))"
proof -
  note b = clarity_bounds [of "strip text" "split_ws (normalize_whitespace (strip text))"]
    length_bounds [of "str_lower U platform" "length (split_ws (normalize_whitespace (strip text)))"]
    hook_bounds [of U "strip text"] cta_bounds [of U "strip text"]
  show ?thesis
  proof (cases "hashtag_richness_of U (str_lower U platform) (strip text)")
    case None
    with b show ?thesis by (simp add: scorer_numeric_values [OF assms])
  next
    case (Some g)
    with b hashtag_le [OF Some] show ?thesis by (simp add: scorer_numeric_values [OF assms])
  qed
qed

lemma scorer_mean_bounded:
  assumes "strip text \<noteq> []"
  shows "sum_list (numeric_values_of (res_dimensions (quality_and_reach_scorer U platform text)))
         / of_nat (length (numeric_values_of
                     (res_dimensions (quality_and_reach_scorer U platform text))))
         \<le> 103 / 120"
proof -
  note b = clarity_bounds [of "strip text" "split_ws (normalize_whitespace (strip text))"]
    length_bounds [of "str_lower U platform" "length (split_ws (normalize_whitespace (strip text)))"]
    hook_bounds [of U "strip text"] cta_bounds [of U "strip text"]
  show ?thesis
  proof (cases "hashtag_richness_of U (str_lower U platform) (strip text)")
    case None
    with b show ?thesis by (simp add: scorer_numeric_values [OF assms])
  next
    case (Some g)
    with b hashtag_le [OF Some] show ?thesis by (simp add: scorer_numeric_values [OF assms])
  qed
qed

lemma scorer_score_le:
  assumes "strip text \<noteq> []"
  shows "res_score (quality_and_reach_scorer U platform text) \<le> 86 / 100"
proof -
  have "sum_list (numeric_values_of (res_dimensions (quality_and_reach_scorer U platform text)))
         / of_nat (length (numeric_values_of
                     (res_dimensions (quality_and_reach_scorer U platform text))))
         \<le> of_int 86 / 100"
    using scorer_mean_bounded [OF assms, of U platform] by simp
  then show ?thesis
    unfolding scorer_score [OF assms] using py_round2_le [of _ 86] by simp
qed

lemma tone_not_nine:
  assumes "strip text \<noteq> []"
  shows "\<not> list_all (\<lambda>v. v = 9 / 10)
           (numeric_values_of (res_dimensions (quality_and_reach_scorer U platform text)))"
  by (simp add: scorer_numeric_values [OF assms])

text \<open>
  Claim C3. For every platform and every text that is not empty after trimming, each
  dimension value is at most 0.9, the dimensions are never all 0.9, their mean is at most
  103/120 (about 0.86), and the score is at most 0.86, hence strictly below the
  refinement threshold 0.90: \<^verbatim>\<open>maybe_refine\<close> requests a rewrite for such a score.
\<close>

theorem score_below_threshold:
  assumes "strip text \<noteq> []"
  shows "list_all (\<lambda>v. v \<le> 9 / 10)
           (numeric_values_of (res_dimensions (quality_and_reach_scorer U platform text)))
       \<and> \<not> list_all (\<lambda>v. v = 9 / 10)
           (numeric_values_of (res_dimensions (quality_and_reach_scorer U platform text)))
       \<and> sum_list (numeric_values_of (res_dimensions (quality_and_reach_scorer U platform text)))
         / of_nat (length (numeric_values_of
                     (res_dimensions (quality_and_reach_scorer U platform text))))
         \<le> 103 / 120
       \<and> res_score (quality_and_reach_scorer U platform text) \<le> 86 / 100
       \<and> res_score (quality_and_reach_scorer U platform text) < REFINEMENT_THRESHOLD
       \<and> needs_refinement (Some (res_score (quality_and_reach_scorer U platform text)))
       \<and> maybe_refine p original_text
            (Some (res_score (quality_and_reach_scorer U platform text))) feedback
          = Request_rewrite (improvement_prompt p original_text feedback)"
proof -
  have le: "res_score (quality_and_reach_scorer U platform text) \<le> 86 / 100"
    by (rule scorer_score_le [OF assms])
  then have lt: "res_score (quality_and_reach_scorer U platform text) < REFINEMENT_THRESHOLD"
    by (simp add: REFINEMENT_THRESHOLD_def)
  from lt have nr: "needs_refinement (Some (res_score (quality_and_reach_scorer U platform text)))"
    by (simp add: needs_refinement_def)
  from lt have mr: "maybe_refine p original_text
            (Some (res_score (quality_and_reach_scorer U platform text))) feedback
          = Request_rewrite (improvement_prompt p original_text feedback)"
    by (simp add: maybe_refine_def)
  show ?thesis
    using scorer_values_bounded [OF assms] tone_not_nine [OF assms]
      scorer_mean_bounded [OF assms] le lt nr mr
    by blast
qed

theorem score_below_threshold_witness:
  "res_score (quality_and_reach_scorer ascii_db (asc ''LinkedIn'') (asc ''hi'')) < 90 / 100
   \<and> needs_refinement (Some (res_score (quality_and_reach_scorer ascii_db (asc ''LinkedIn'') (asc ''hi''))))
   \<and> maybe_refine (asc ''linkedin'') (asc ''hi'')
        (Some (res_score (quality_and_reach_scorer ascii_db (asc ''LinkedIn'') (asc ''hi''))))
        (asc ''Add a clearer call-to-action.'')
      = Request_rewrite (improvement_prompt (asc ''linkedin'') (asc ''hi'')
          (asc ''Add a clearer call-to-action.''))"
  using score_below_threshold [OF strip_hi, of ascii_db "asc ''LinkedIn''" "asc ''linkedin''"
          "asc ''hi''" "asc ''Add a clearer call-to-action.''"]
  by (simp add: REFINEMENT_THRESHOLD_def)

text \<open>
  Claim C6. The refinement decision asks for a rewrite iff a score is present and
  strictly below the threshold 0.90: an absent score and the score 0.90 itself give no
  refinement, 0.8999 gives one, and \<^verbatim>\<open>maybe_refine\<close> requests the rewrite exactly when
  the decision says so.
\<close>

theorem refinement_decision:
  "needs_refinement None = False
   \<and> needs_refinement (Some (90 / 100)) = False
   \<and> needs_refinement (Some (8999 / 10000)) = True
   \<and> (\<forall>s. needs_refinement (Some s) = (s < 90 / 100))
   \<and> REFINEMENT_THRESHOLD = 90 / 100
   \<and> (\<forall>p t b fb. maybe_refine p t b fb =
         (if needs_refinement b then Request_rewrite (improvement_prompt p t fb)
          else Keep_original t))"
  by (auto simp: needs_refinement_def maybe_refine_def REFINEMENT_THRESHOLD_def
      split: option.split)

section \<open>The score as a mean\<close>

lemma numeric_values_of_map_filter: "numeric_values_of d = List.map_filter snd d"
  by (induction d rule: numeric_values_of.induct) (simp_all add: List.map_filter_simps)

lemma ex_strip: "strip (asc ''share #a #b #c'') = asc ''share #a #b #c''"
  by (simp add: strip_def asc_def isspace_def)

lemma ex_words: "length (split_ws (asc ''share #a #b #c'')) = 4"
  by (simp add: split_ws_def asc_def isspace_def)

lemma ex_no_fallback: "\<not> sublist (asc ''[FALLBACK]'') (asc ''share #a #b #c'')"
  by (simp add: asc_def sublist_Cons_right)

lemma ex_clarity: "clarity_of (asc ''share #a #b #c'') ws = (if length ws < 15 then 6 / 10 else 8 / 10)"
  by (simp add: clarity_of_def ex_no_fallback)

lemma ex_length: "length_appropriateness_of (asc ''instagram'') 4 = 5 / 10"
  by (simp add: length_appropriateness_of_def platform_names_distinct)

lemma ex_sentences: "re_split_sentences (asc ''share #a #b #c'') = [asc ''share #a #b #c'']"
  by (simp add: re_split_sentences_def asc_def)

lemma ex_no_emoji: "\<not> list_ex (\<lambda>e. sublist e (asc ''share #a #b #c'')) HOOK_EMOJI"
  by (simp add: HOOK_EMOJI_def asc_def sublist_Cons_right)

lemma ex_lower: "str_lower ascii_db (asc ''share #a #b #c'') = asc ''share #a #b #c''"
  by (simp add: ascii_db_def ascii_lower_def asc_def)

lemma ex_hook: "hook_strength_of ascii_db (asc ''share #a #b #c'') = 7 / 10"
proof -
  have q: "63 \<notin> set (asc ''share #a #b #c'')" by (simp add: asc_def)
  have p: "\<not> prefix (asc ''imagine'') (asc ''share #a #b #c'')"
    "\<not> prefix (asc ''what if'') (asc ''share #a #b #c'')"
    "\<not> prefix (asc ''ever felt'') (asc ''share #a #b #c'')"
    by (simp_all add: asc_def)
  show ?thesis
    by (simp add: hook_strength_of_def Let_def ex_strip ex_sentences q ex_no_emoji ex_lower p)
qed

lemma ex_cta: "cta_quality_of ascii_db (asc ''share #a #b #c'') = 9 / 10"
proof -
  have "sublist (asc ''share'') (asc ''share #a #b #c'')"
    by (simp add: asc_def sublist_Cons_right)
  then have "list_ex (\<lambda>p. sublist p (asc ''share #a #b #c'')) cta_phrases"
    by (simp add: cta_phrases_def)
  then show ?thesis by (simp add: cta_quality_of_def Let_def ex_lower)
qed

lemma ex_tags: "findall_hashtags ascii_db (asc ''share #a #b #c'') = [asc ''#a'', asc ''#b'', asc ''#c'']"
  by (simp add: asc_def ascii_db_def is_word_def ascii_isalnum_def)

lemma ex_hashtag: "hashtag_richness_of ascii_db (asc ''instagram'') (asc ''share #a #b #c'') = Some (9 / 10)"
  by (simp add: hashtag_richness_of_def Let_def ex_tags)

lemma ex_lower_platform: "str_lower ascii_db (asc ''instagram'') = asc ''instagram''"
  by (simp add: ascii_db_def ascii_lower_def asc_def)

lemma ex_nonempty: "strip (asc ''share #a #b #c'') \<noteq> []"
  by (simp add: ex_strip) (simp add: asc_def)

lemma ex_values:
  "numeric_values_of (res_dimensions
      (quality_and_reach_scorer ascii_db (asc ''instagram'') (asc ''share #a #b #c'')))
   = [6 / 10, 8 / 10, 5 / 10, 7 / 10, 9 / 10, 9 / 10]"
  by (simp add: scorer_numeric_values [OF ex_nonempty] ex_strip ex_lower_platform
      split_ws_normalize ex_words ex_clarity ex_length ex_hook ex_cta ex_hashtag)

lemma round_73: "py_round2 up (11 / 15) = 73 / 100"
proof -
  have f: "\<lfloor>220 / 3 :: rat\<rfloor> = 73"
    by (rule floor_unique) simp_all
  show ?thesis
    by (simp add: py_round2_def round_tie_def Let_def f)
qed

text \<open>
  The score is not always the mean itself. On instagram the text \<^verbatim>\<open>share #a #b #c\<close> has
  the six values 0.6, 0.8, 0.5, 0.7, 0.9, 0.9, whose mean is 11/15 = 0.7333..., and the
  score returned is 0.73.
\<close>

theorem score_not_exact_mean:
  "res_score (quality_and_reach_scorer ascii_db (asc ''instagram'') (asc ''share #a #b #c''))
     = 73 / 100
   \<and> sum_list (numeric_values_of (res_dimensions
        (quality_and_reach_scorer ascii_db (asc ''instagram'') (asc ''share #a #b #c''))))
     / of_nat (length (numeric_values_of (res_dimensions
        (quality_and_reach_scorer ascii_db (asc ''instagram'') (asc ''share #a #b #c'')))))
     = 11 / 15
   \<and> res_score (quality_and_reach_scorer ascii_db (asc ''instagram'') (asc ''share #a #b #c''))
     \<noteq> sum_list (numeric_values_of (res_dimensions
        (quality_and_reach_scorer ascii_db (asc ''instagram'') (asc ''share #a #b #c''))))
     / of_nat (length (numeric_values_of (res_dimensions
        (quality_and_reach_scorer ascii_db (asc ''instagram'') (asc ''share #a #b #c'')))))"
proof -
  have m: "sum_list (numeric_values_of (res_dimensions
        (quality_and_reach_scorer ascii_db (asc ''instagram'') (asc ''share #a #b #c''))))
     / of_nat (length (numeric_values_of (res_dimensions
        (quality_and_reach_scorer ascii_db (asc ''instagram'') (asc ''share #a #b #c'')))))
     = 11 / 15"
    by (simp add: ex_values)
  have s: "res_score (quality_and_reach_scorer ascii_db (asc ''instagram'') (asc ''share #a #b #c''))
     = 73 / 100"
    by (simp only: scorer_score [OF ex_nonempty] m round_73)
  show ?thesis by (simp only: m s) simp
qed

text \<open>
  Where the decimal mean is a tie, the runtime decides. On instagram the text \<^verbatim>\<open>share?\<close>
  has the values 0.6, 0.8, 0.5, 0.85, 0.9, 0.4 with the mean 0.675; the binary mean of
  CPython lies just below it, and the score is 0.67.
\<close>

lemma tie_strip: "strip (asc ''share?'') = asc ''share?''"
  by (simp add: strip_def asc_def isspace_def)

lemma tie_nonempty: "strip (asc ''share?'') \<noteq> []"
  by (simp add: tie_strip) (simp add: asc_def)

lemma tie_words: "length (split_ws (asc ''share?'')) = 1"
  by (simp add: split_ws_def asc_def isspace_def)

lemma tie_clarity: "clarity_of (asc ''share?'') ws = (if length ws < 15 then 6 / 10 else 8 / 10)"
  by (simp add: clarity_of_def asc_def sublist_Cons_right)

lemma tie_length: "length_appropriateness_of (asc ''instagram'') (Suc 0) = 5 / 10"
  by (simp add: length_appropriateness_of_def platform_names_distinct)

lemma tie_hook: "hook_strength_of U (asc ''share?'') = 85 / 100"
proof -
  have s: "re_split_sentences (asc ''share?'') = [asc ''share?'']"
    by (simp add: re_split_sentences_def asc_def)
  have q: "63 \<in> set (asc ''share?'')" by (simp add: asc_def)
  show ?thesis
    by (simp add: hook_strength_of_def Let_def tie_strip s q)
qed

lemma tie_cta: "cta_quality_of ascii_db (asc ''share?'') = 9 / 10"
proof -
  have l: "str_lower ascii_db (asc ''share?'') = asc ''share?''"
    by (simp add: ascii_db_def ascii_lower_def asc_def)
  have "sublist (asc ''share'') (asc ''share?'')"
    by (simp add: asc_def sublist_Cons_right)
  then have "list_ex (\<lambda>p. sublist p (asc ''share?'')) cta_phrases"
    by (simp add: cta_phrases_def)
  then show ?thesis by (simp add: cta_quality_of_def Let_def l)
qed

lemma tie_hashtag: "hashtag_richness_of U (asc ''instagram'') (asc ''share?'') = Some (4 / 10)"
  by (simp add: hashtag_richness_of_def Let_def asc_def)

lemma tie_values:
  "numeric_values_of (res_dimensions
      (quality_and_reach_scorer ascii_db (asc ''instagram'') (asc ''share?'')))
   = [6 / 10, 8 / 10, 5 / 10, 85 / 100, 9 / 10, 4 / 10]"
  by (simp add: scorer_numeric_values [OF tie_nonempty] tie_strip ex_lower_platform
      split_ws_normalize tie_words tie_clarity tie_length tie_hook tie_cta tie_hashtag)

lemma tie_sum1: "fl (0 + fl (6 / 10)) = 5404319552844595 / 9007199254740992"
  by code_simp

lemma tie_sum2:
  "fl (5404319552844595 / 9007199254740992 + fl (8 / 10))
   = 3152519739159347 / 2251799813685248"
  by code_simp

lemma tie_sum3:
  "fl (3152519739159347 / 2251799813685248 + fl (5 / 10))
   = 4278419646001971 / 2251799813685248"
  by code_simp

lemma tie_sum4: "fl (4278419646001971 / 2251799813685248 + fl (85 / 100)) = 11 / 4"
  by code_simp

lemma tie_sum5: "fl (11 / 4 + fl (9 / 10)) = 8219069319951155 / 2251799813685248"
  by code_simp

lemma tie_sum6:
  "fl (8219069319951155 / 2251799813685248 + fl (4 / 10))
   = 4559894622712627 / 1125899906842624"
  by code_simp

lemma tie_sum:
  "foldl (\<lambda>s v. fl (s + fl v)) 0 [6 / 10, 8 / 10, 5 / 10, 85 / 100, 9 / 10, 4 / 10]
   = 4559894622712627 / 1125899906842624"
  by (simp only: foldl.simps tie_sum1 tie_sum2 tie_sum3 tie_sum4 tie_sum5 tie_sum6)

lemma tie_quotient:
  "fl (4559894622712627 / 1125899906842624 / 6) = 6079859496950169 / 9007199254740992"
  by code_simp

lemma tie_mean:
  "binary_mean [6 / 10, 8 / 10, 5 / 10, 85 / 100, 9 / 10, 4 / 10]
   = 6079859496950169 / 9007199254740992"
proof -
  have n: "of_nat (length [6 / 10, 8 / 10, 5 / 10, 85 / 100, 9 / 10, 4 / 10 :: rat])
           = (6 :: rat)"
    by simp
  show ?thesis
    by (simp only: binary_mean_def tie_sum n tie_quotient)
qed

lemma tie_down: "\<not> cpython_tie_up [6 / 10, 8 / 10, 5 / 10, 85 / 100, 9 / 10, 4 / 10]"
  unfolding cpython_tie_up_def Let_def tie_mean by simp

lemma score_at_a_tie:
  "sum_list (numeric_values_of (res_dimensions
        (quality_and_reach_scorer ascii_db (asc ''instagram'') (asc ''share?''))))
     / of_nat (length (numeric_values_of (res_dimensions
        (quality_and_reach_scorer ascii_db (asc ''instagram'') (asc ''share?'')))))
     = 675 / 1000
   \<and> res_score (quality_and_reach_scorer ascii_db (asc ''instagram'') (asc ''share?''))
     = 67 / 100"
proof -
  have t: "tie_up ascii_db [6 / 10, 8 / 10, 5 / 10, 85 / 100, 9 / 10, 4 / 10] = False"
    using tie_down by (simp add: ascii_db_def)
  have f: "\<lfloor>135 / 2 :: rat\<rfloor> = 67"
    by (rule floor_unique) simp_all
  have r: "py_round2 False (27 / 40) = 67 / 100"
    by (simp add: py_round2_def round_tie_def Let_def f)
  have m: "sum_list (numeric_values_of (res_dimensions
        (quality_and_reach_scorer ascii_db (asc ''instagram'') (asc ''share?''))))
     / of_nat (length (numeric_values_of (res_dimensions
        (quality_and_reach_scorer ascii_db (asc ''instagram'') (asc ''share?'')))))
     = 27 / 40"
    by (simp add: tie_values)
  have "res_score (quality_and_reach_scorer ascii_db (asc ''instagram'') (asc ''share?''))
     = 67 / 100"
    unfolding scorer_score [OF tie_nonempty] m unfolding tie_values t by (rule r)
  with m show ?thesis by simp
qed

text \<open>
  Claim C2, as amended. For every platform and every text that is not empty after
  trimming, the values averaged are exactly the entries of the dimensions mapping that
  are not \<^verbatim>\<open>None\<close> (an absent dimension enters neither the sum nor the count), there is at
  least one, and the score is their mean rounded to two decimal places: a whole number
  of hundredths within 0.005 of the mean, whichever way the runtime breaks a tie.
\<close>

theorem score_is_rounded_mean:
  assumes "strip text \<noteq> []"
  shows "numeric_values_of (res_dimensions (quality_and_reach_scorer U platform text))
           = List.map_filter snd (res_dimensions (quality_and_reach_scorer U platform text))
       \<and> numeric_values_of (res_dimensions (quality_and_reach_scorer U platform text)) \<noteq> []
       \<and> (\<exists>k::int. res_score (quality_and_reach_scorer U platform text) = of_int k / 100)
       \<and> \<bar>res_score (quality_and_reach_scorer U platform text)
           - sum_list (numeric_values_of (res_dimensions (quality_and_reach_scorer U platform text)))
             / of_nat (length (numeric_values_of
                         (res_dimensions (quality_and_reach_scorer U platform text))))\<bar>
           \<le> 1 / 200"
proof -
  have ne: "numeric_values_of (res_dimensions (quality_and_reach_scorer U platform text)) \<noteq> []"
    by (simp add: scorer_numeric_values [OF assms])
  show ?thesis
    unfolding scorer_score [OF assms]
    using ne numeric_values_of_map_filter py_round2_hundredth py_round2_near
    by blast
qed

theorem score_is_rounded_mean_witness:
  "numeric_values_of (res_dimensions (quality_and_reach_scorer ascii_db (asc ''LinkedIn'') (asc ''hi'')))
     \<noteq> []
   \<and> \<bar>res_score (quality_and_reach_scorer ascii_db (asc ''LinkedIn'') (asc ''hi''))
       - sum_list (numeric_values_of
           (res_dimensions (quality_and_reach_scorer ascii_db (asc ''LinkedIn'') (asc ''hi''))))
         / of_nat (length (numeric_values_of
           (res_dimensions (quality_and_reach_scorer ascii_db (asc ''LinkedIn'') (asc ''hi'')))))\<bar>
       \<le> 1 / 200"
  using score_is_rounded_mean [OF strip_hi, of ascii_db "asc ''LinkedIn''"]
  by blast

section \<open>The fallback output and the clarity heuristic\<close>

lemma run_agent_exhausted:
  assumes "call 1 = Inl e1" "call 2 = Inl e2" "call 3 = Inl e"
  shows "run_agent call = asc ''[FALLBACK OUTPUT] Unable to generate content due to: '' @ e"
proof -
  have "[1..<MAX_RETRIES + 1] = [1, 2, 3]"
    by (simp add: MAX_RETRIES_def upt_rec)
  with assms show ?thesis
    by (simp add: run_agent_def fallback_output_def)
qed

lemma fallback_prefix_clean:
  "sublist (asc ''[FALLBACK]'')
     (asc ''[FALLBACK OUTPUT] Unable to generate content due to: '' @ e)
   \<longleftrightarrow> sublist (asc ''[FALLBACK]'') e"
  by (simp add: asc_def sublist_Cons_right)

lemma sublist_strip: "sublist (strip s) s"
proof -
  have "sublist (rev (dropWhile isspace (rev (dropWhile isspace s)))) (dropWhile isspace s)"
    by (simp add: sublist_rev_left)
  moreover have "sublist (dropWhile isspace s) s" by simp
  ultimately show ?thesis
    unfolding strip_def by (rule sublist_order.order_trans)
qed

lemma not_sublist_strip: "\<not> sublist x s \<Longrightarrow> \<not> sublist x (strip s)"
  using sublist_strip sublist_order.order_trans by blast

lemma fallback_nonempty:
  "strip (asc ''[FALLBACK OUTPUT] Unable to generate content due to: '' @ e) \<noteq> []"
  by (simp add: strip_Nil_iff asc_def isspace_def)

lemma scorer_clarity:
  "strip text \<noteq> [] \<Longrightarrow>
   map_of (res_dimensions (quality_and_reach_scorer U platform text)) ''clarity''
     = Some (Some (clarity_of (strip text) (split_ws (normalize_whitespace (strip text)))))"
  by (simp add: scorer_dimensions)

text \<open>
  Claim C10. When all three attempts of \<^verbatim>\<open>run_agent\<close> raise and the message \<open>e\<close> of the
  last error does not contain \<^verbatim>\<open>[FALLBACK]\<close>, the string returned is
  \<^verbatim>\<open>[FALLBACK OUTPUT] Unable to generate content due to: \<close> followed by \<open>e\<close>; it does not
  contain \<^verbatim>\<open>[FALLBACK]\<close> either, so the scorer gives it the clarity 0.6 when it has fewer
  than 15 words and 0.8 otherwise, never the penalty 0.3.
\<close>

theorem fallback_output_not_penalised:
  assumes "call 1 = Inl e1" "call 2 = Inl e2" "call 3 = Inl e"
      and "\<not> sublist (asc ''[FALLBACK]'') e"
  shows "run_agent call = asc ''[FALLBACK OUTPUT] Unable to generate content due to: '' @ e
       \<and> \<not> sublist (asc ''[FALLBACK]'') (run_agent call)
       \<and> map_of (res_dimensions (quality_and_reach_scorer U platform (run_agent call))) ''clarity''
           = Some (Some (if word_count (run_agent call) < 15 then 6 / 10 else 8 / 10))
       \<and> map_of (res_dimensions (quality_and_reach_scorer U platform (run_agent call))) ''clarity''
           \<noteq> Some (Some (3 / 10))"
proof -
  let ?t = "asc ''[FALLBACK OUTPUT] Unable to generate content due to: '' @ e"
  have r: "run_agent call = ?t"
    using assms(1-3) by (rule run_agent_exhausted)
  have n: "\<not> sublist (asc ''[FALLBACK]'') ?t"
    using assms(4) by (simp add: fallback_prefix_clean)
  then have ns: "\<not> sublist (asc ''[FALLBACK]'') (strip ?t)"
    by (rule not_sublist_strip)
  have c: "clarity_of (strip ?t) (split_ws (normalize_whitespace (strip ?t)))
           = (if word_count ?t < 15 then 6 / 10 else 8 / 10)"
    using ns by (simp add: clarity_of_def word_count_def split_ws_normalize split_ws_strip)
  have m: "map_of (res_dimensions (quality_and_reach_scorer U platform ?t)) ''clarity''
           = Some (Some (if word_count ?t < 15 then 6 / 10 else 8 / 10))"
    by (simp only: scorer_clarity [OF fallback_nonempty] c)
  have "(if word_count ?t < 15 then 6 / 10 else 8 / 10) \<noteq> (3 / 10 :: rat)"
    by simp
  with m have d: "map_of (res_dimensions (quality_and_reach_scorer U platform ?t)) ''clarity''
           \<noteq> Some (Some (3 / 10))"
    by (simp only: option.inject) simp
  show ?thesis
    unfolding r using n m d by blast
qed

lemma boom_clean: "\<not> sublist (asc ''[FALLBACK]'') (asc ''Connection error.'')"
  by (simp add: asc_def sublist_Cons_right)

lemma boom_words:
  "word_count (asc ''[FALLBACK OUTPUT] Unable to generate content due to: '' @ asc ''Connection error.'') = 10"
  by (simp add: word_count_def split_ws_def asc_def isspace_def)

theorem fallback_output_not_penalised_witness:
  "run_agent (\<lambda>k. Inl (asc ''Connection error.''))
     = asc ''[FALLBACK OUTPUT] Unable to generate content due to: Connection error.''
   \<and> map_of (res_dimensions (quality_and_reach_scorer ascii_db (asc ''linkedin'')
        (run_agent (\<lambda>k. Inl (asc ''Connection error.''))))) ''clarity''
     = Some (Some (6 / 10))"
proof -
  have j: "asc ''[FALLBACK OUTPUT] Unable to generate content due to: '' @ asc ''Connection error.''
     = asc ''[FALLBACK OUTPUT] Unable to generate content due to: Connection error.''"
    by (simp add: asc_def)
  have w: "word_count (asc ''[FALLBACK OUTPUT] Unable to generate content due to: Connection error.'') = 10"
    using boom_words by (simp only: j)
  note t = fallback_output_not_penalised [of "\<lambda>k. Inl (asc ''Connection error.'')"
        "asc ''Connection error.''" "asc ''Connection error.''" "asc ''Connection error.''"
        ascii_db "asc ''linkedin''", OF refl refl refl boom_clean]
  from t have r: "run_agent (\<lambda>k. Inl (asc ''Connection error.''))
     = asc ''[FALLBACK OUTPUT] Unable to generate content due to: Connection error.''"
    by (simp only: j)
  from t have "map_of (res_dimensions (quality_and_reach_scorer ascii_db (asc ''linkedin'')
        (run_agent (\<lambda>k. Inl (asc ''Connection error.''))))) ''clarity''
     = Some (Some (if word_count (run_agent (\<lambda>k. Inl (asc ''Connection error.''))) < 15
                   then 6 / 10 else 8 / 10))"
    by blast
  then have "map_of (res_dimensions (quality_and_reach_scorer ascii_db (asc ''linkedin'')
        (run_agent (\<lambda>k. Inl (asc ''Connection error.''))))) ''clarity''
     = Some (Some (6 / 10))"
    by (simp add: r w)
  with r show ?thesis by blast
qed

section \<open>The instagram branch\<close>

lemma format_instagram_eq:
  "format_instagram U raw_text hashtags =
     Inr [(''platform'', Str (asc ''instagram'')),
          (''formatted_text'',
             Str (if hashtag_block_of U hashtags \<noteq> []
                  then instagram_caption raw_text @ [10, 10] @ hashtag_block_of U hashtags
                  else instagram_caption raw_text)),
          (''caption'', Str (instagram_caption raw_text)),
          (''hashtag_block'', Str (hashtag_block_of U hashtags))]"
  by (simp add: format_instagram_def config_instagram getitem_Cons Let_def
      instagram_caption_def hashtag_block_of_def)

lemma linebreak_isspace: "is_linebreak c \<Longrightarrow> isspace c"
  unfolding is_linebreak_def isspace_def by presburger

lemma splitlines_acc_clean:
  "list_all (\<lambda>c. \<not> is_linebreak c) cur \<Longrightarrow>
   list_all (list_all (\<lambda>c. \<not> is_linebreak c)) (splitlines_acc cur s)"
proof (induction cur s rule: splitlines_acc.induct)
  case (1 cur)
  then show ?case by simp
next
  case (2 cur c)
  then show ?case by simp
next
  case (3 cur c d cs)
  show ?case
  proof (cases "c = 13 \<and> d = 10")
    case True
    with 3 show ?thesis by simp
  next
    case False
    show ?thesis
    proof (cases "is_linebreak c")
      case True
      with 3 False show ?thesis by (simp cong: conj_cong)
    next
      case nb: False
      with 3 False show ?thesis by (simp cong: conj_cong)
    qed
  qed
qed

lemma newline_is_linebreak [simp]: "is_linebreak 10"
  by (simp add: is_linebreak_def)

lemma splitlines_clean: "l \<in> set (splitlines s) \<Longrightarrow> 10 \<notin> set l"
proof -
  assume a: "l \<in> set (splitlines s)"
  have "list_all (list_all (\<lambda>c. \<not> is_linebreak c)) (splitlines_acc [] s)"
    by (rule splitlines_acc_clean) simp
  with a have "list_all (\<lambda>c. \<not> is_linebreak c) l"
    by (simp add: splitlines_def list_all_iff)
  then show ?thesis
    using newline_is_linebreak by (auto simp: list_all_iff)
qed

lemma newline_lines_join:
  "ls \<noteq> [] \<Longrightarrow> \<forall>l\<in>set ls. 10 \<notin> set l \<Longrightarrow> newline_lines (join [10] ls) = length ls"
proof (induction ls)
  case Nil
  then show ?case by simp
next
  case (Cons l ls)
  have l: "filter (\<lambda>c. c = 10) l = []"
    using Cons.prems by (auto simp: filter_empty_conv)
  show ?case
  proof (cases ls)
    case Nil
    with l show ?thesis by (simp add: newline_lines_def)
  next
    case (Cons y ys)
    with Cons.IH Cons.prems l show ?thesis
      by (simp add: newline_lines_def)
  qed
qed

lemma splitlines_acc_count:
  "s \<noteq> [] \<Longrightarrow> \<not> is_linebreak (last s) \<Longrightarrow>
   newline_lines s \<le> length (splitlines_acc cur s)"
proof (induction cur s rule: splitlines_acc.induct)
  case (1 cur)
  then show ?case by simp
next
  case (2 cur c)
  then have "c \<noteq> 10" by auto
  with 2 show ?case by (simp add: newline_lines_def)
next
  case (3 cur c d cs)
  show ?case
  proof (cases "c = 13 \<and> d = 10")
    case True
    with 3 have "cs \<noteq> []" by auto
    with 3 True show ?thesis by (simp add: newline_lines_def)
  next
    case False
    show ?thesis
    proof (cases "is_linebreak c")
      case True
      with 3 False have "newline_lines (d # cs) \<le> length (splitlines_acc [] (d # cs))"
        by simp
      moreover have "newline_lines (c # d # cs) \<le> Suc (newline_lines (d # cs))"
        by (simp add: newline_lines_def)
      moreover have "splitlines_acc cur (c # d # cs) = cur # splitlines_acc [] (d # cs)"
        using True False by (simp cong: conj_cong)
      ultimately show ?thesis by simp
    next
      case nb: False
      then have "c \<noteq> 10" by auto
      then have "newline_lines (c # d # cs) = newline_lines (d # cs)"
        by (simp add: newline_lines_def)
      moreover have "splitlines_acc cur (c # d # cs) = splitlines_acc (cur @ [c]) (d # cs)"
        using nb False by (simp cong: conj_cong)
      moreover from 3 False nb
      have "newline_lines (d # cs) \<le> length (splitlines_acc (cur @ [c]) (d # cs))"
        by simp
      ultimately show ?thesis by simp
    qed
  qed
qed

lemma strip_last: "strip s \<noteq> [] \<Longrightarrow> \<not> isspace (last (strip s))"
proof -
  assume a: "strip s \<noteq> []"
  then have d: "dropWhile isspace (rev (dropWhile isspace s)) \<noteq> []"
    by (simp add: strip_def)
  have "last (strip s) = hd (dropWhile isspace (rev (dropWhile isspace s)))"
    using d by (simp add: strip_def last_rev)
  with hd_dropWhile [OF d] show ?thesis by simp
qed

lemma newline_lines_take: "newline_lines (take n s) \<le> newline_lines s"
proof -
  have "length (filter (\<lambda>c. c = 10) (take n s)) \<le>
        length (filter (\<lambda>c. c = 10) (take n s @ drop n s))"
    unfolding filter_append by simp
  then show ?thesis by (simp add: newline_lines_def)
qed

lemma instagram_caption_lines:
  assumes "strip raw_text \<noteq> []"
  shows "newline_lines (instagram_caption raw_text) \<le> 10"
proof -
  let ?c = "strip raw_text"
  let ?c1 = "if length (splitlines ?c) > 10 then join [10] (take 10 (splitlines ?c)) else ?c"
  have c1: "newline_lines ?c1 \<le> 10"
  proof (cases "length (splitlines ?c) > 10")
    case True
    have "take 10 (splitlines ?c) \<noteq> []" using True by auto
    moreover have "\<forall>l\<in>set (take 10 (splitlines ?c)). 10 \<notin> set l"
      using splitlines_clean by (blast dest: in_set_takeD)
    ultimately have "newline_lines (join [10] (take 10 (splitlines ?c)))
                     = length (take 10 (splitlines ?c))"
      by (rule newline_lines_join)
    with True show ?thesis by simp
  next
    case False
    have "\<not> is_linebreak (last ?c)"
      using strip_last [OF assms] linebreak_isspace by blast
    then have "newline_lines ?c \<le> length (splitlines ?c)"
      unfolding splitlines_def by (rule splitlines_acc_count [OF assms])
    with False show ?thesis by simp
  qed
  have "newline_lines (take 2200 ?c1) \<le> newline_lines ?c1"
    by (rule newline_lines_take)
  with c1 show ?thesis
    by (simp add: instagram_caption_def Let_def)
qed

lemma instagram_caption_length: "length (instagram_caption raw_text) \<le> 2200"
  by (simp add: instagram_caption_def Let_def)

lemma strip_no_space: "\<forall>c\<in>set s. \<not> isspace c \<Longrightarrow> strip s = s"
proof -
  assume a: "\<forall>c\<in>set s. \<not> isspace c"
  then have 1: "dropWhile isspace s = s"
    by (cases s) auto
  from a have 2: "dropWhile isspace (rev s) = rev s"
    by (cases "rev s") (auto simp: dropWhile_eq_self_iff)
  show ?thesis by (simp add: strip_def 1 2)
qed

lemma splitlines_acc_one:
  "\<forall>c\<in>set s. \<not> is_linebreak c \<Longrightarrow>
   splitlines_acc cur s = (if cur @ s = [] then [] else [cur @ s])"
proof (induction cur s rule: splitlines_acc.induct)
  case (1 cur)
  show ?case by simp
next
  case (2 cur c)
  then show ?case by simp
next
  case (3 cur c d cs)
  from "3.prems" have nb: "\<not> is_linebreak c" by simp
  then have "c \<noteq> 13" by (auto simp: is_linebreak_def)
  with 3 nb show ?case by simp
qed

lemma tool_instagram_eq:
  "str_lower U platform = asc ''instagram'' \<Longrightarrow> strip text \<noteq> [] \<Longrightarrow>
   platform_formatting_tool U platform text hashtags =
     Inr [(''platform'', Str (asc ''instagram'')),
          (''formatted_text'',
             Str (if hashtag_block_of U hashtags \<noteq> []
                  then instagram_caption text @ [10, 10] @ hashtag_block_of U hashtags
                  else instagram_caption text)),
          (''caption'', Str (instagram_caption text)),
          (''hashtag_block'', Str (hashtag_block_of U hashtags))]"
  by (simp add: tool_instagram format_instagram_eq)

lemma splitlines_acc_pos: "s \<noteq> [] \<Longrightarrow> 1 \<le> length (splitlines_acc cur s)"
proof (induction cur s rule: splitlines_acc.induct)
  case (1 cur)
  then show ?case by simp
next
  case (2 cur c)
  show ?case by simp
next
  case (3 cur c d cs)
  show ?case
  proof (cases "c = 13 \<and> d = 10")
    case True
    then show ?thesis by simp
  next
    case False
    show ?thesis
    proof (cases "is_linebreak c")
      case True
      with False show ?thesis by (simp cong: conj_cong)
    next
      case nb: False
      with 3 False show ?thesis by (simp cong: conj_cong)
    qed
  qed
qed

lemma splitlines_acc_Nil_le: "length (splitlines_acc cur []) \<le> length (splitlines_acc cur s)"
proof (cases s)
  case Nil
  then show ?thesis by simp
next
  case (Cons c cs)
  then have "1 \<le> length (splitlines_acc cur s)"
    by (intro splitlines_acc_pos) simp
  then show ?thesis by simp
qed

lemma splitlines_acc_take:
  "length (splitlines_acc cur (take n s)) \<le> length (splitlines_acc cur s)"
proof (induction cur s arbitrary: n rule: splitlines_acc.induct)
  case (1 cur)
  show ?case by simp
next
  case (2 cur c)
  show ?case by (cases n) simp_all
next
  case (3 cur c d cs)
  show ?case
  proof (cases n)
    case 0
    then show ?thesis
      using splitlines_acc_Nil_le [of cur "c # d # cs"] by simp
  next
    case (Suc m)
    show ?thesis
    proof (cases m)
      case 0
      have "take n (c # d # cs) = [c]"
        using Suc 0 by simp
      moreover have "length (splitlines_acc cur [c]) = 1"
        by simp
      moreover have "1 \<le> length (splitlines_acc cur (c # d # cs))"
        by (rule splitlines_acc_pos) simp
      ultimately show ?thesis by (simp only:)
    next
      case (Suc k)
      have t: "take n (c # d # cs) = c # d # take k cs"
        using \<open>n = Suc m\<close> Suc by simp
      show ?thesis
      proof (cases "c = 13 \<and> d = 10")
        case True
        have "splitlines_acc cur (c # d # take k cs) = cur # splitlines_acc [] (take k cs)"
          using True by simp
        moreover have "splitlines_acc cur (c # d # cs) = cur # splitlines_acc [] cs"
          using True by simp
        moreover have "length (splitlines_acc [] (take k cs)) \<le> length (splitlines_acc [] cs)"
          using 3(1) True by blast
        ultimately show ?thesis unfolding t by simp
      next
        case False
        have t': "d # take k cs = take (Suc k) (d # cs)" by simp
        show ?thesis
        proof (cases "is_linebreak c")
          case True
          have "splitlines_acc cur (c # d # take k cs) = cur # splitlines_acc [] (take (Suc k) (d # cs))"
            using True False by (simp cong: conj_cong)
          moreover have "splitlines_acc cur (c # d # cs) = cur # splitlines_acc [] (d # cs)"
            using True False by (simp cong: conj_cong)
          moreover have "length (splitlines_acc [] (take (Suc k) (d # cs)))
                         \<le> length (splitlines_acc [] (d # cs))"
            using 3(2) False True by blast
          ultimately show ?thesis unfolding t by simp
        next
          case nb: False
          have "splitlines_acc cur (c # d # take k cs)
                = splitlines_acc (cur @ [c]) (take (Suc k) (d # cs))"
            using nb False by (simp cong: conj_cong)
          moreover have "splitlines_acc cur (c # d # cs) = splitlines_acc (cur @ [c]) (d # cs)"
            using nb False by (simp cong: conj_cong)
          moreover have "length (splitlines_acc (cur @ [c]) (take (Suc k) (d # cs)))
                         \<le> length (splitlines_acc (cur @ [c]) (d # cs))"
            using 3(3) False nb by blast
          ultimately show ?thesis unfolding t by simp
        qed
      qed
    qed
  qed
qed

lemma splitlines_take: "length (splitlines (take n s)) \<le> length (splitlines s)"
  by (simp add: splitlines_def splitlines_acc_take)

lemma splitlines_acc_line:
  "\<forall>c\<in>set l. \<not> is_linebreak c \<Longrightarrow>
   splitlines_acc cur (l @ 10 # rest) = (cur @ l) # splitlines_acc [] rest"
proof (induction l arbitrary: cur)
  case Nil
  show ?case by (cases rest) simp_all
next
  case (Cons c l)
  then have nb: "\<not> is_linebreak c" by simp
  then have c13: "c \<noteq> 13" by (auto simp: is_linebreak_def)
  obtain d ds where e: "l @ 10 # rest = d # ds" by (cases "l @ 10 # rest") auto
  have "splitlines_acc cur (c # d # ds) = splitlines_acc (cur @ [c]) (d # ds)"
    using nb c13 by simp
  with Cons e show ?case by simp
qed

lemma splitlines_join:
  "\<forall>l\<in>set ls. \<forall>c\<in>set l. \<not> is_linebreak c \<Longrightarrow>
   length (splitlines (join [10] ls)) \<le> length ls"
proof (induction ls)
  case Nil
  show ?case by (simp add: splitlines_def)
next
  case (Cons l ls)
  show ?case
  proof (cases ls)
    case Nil
    have "splitlines_acc [] l = (if [] @ l = [] then [] else [[] @ l])"
      using Cons.prems by (intro splitlines_acc_one) simp
    with Nil show ?thesis by (simp add: splitlines_def)
  next
    case (Cons y ys)
    have "splitlines_acc [] (l @ 10 # join [10] ls) = ([] @ l) # splitlines_acc [] (join [10] ls)"
      using Cons.prems by (intro splitlines_acc_line) simp
    with Cons Cons.IH Cons.prems show ?thesis by (simp add: splitlines_def)
  qed
qed

lemma splitlines_lines_clean:
  "\<forall>l\<in>set (splitlines s). \<forall>c\<in>set l. \<not> is_linebreak c"
proof -
  have "list_all (list_all (\<lambda>c. \<not> is_linebreak c)) (splitlines_acc [] s)"
    by (rule splitlines_acc_clean) simp
  then show ?thesis by (simp add: splitlines_def list_all_iff)
qed

lemma instagram_caption_splitlines:
  "length (splitlines (instagram_caption raw_text)) \<le> 10"
proof -
  let ?c = "strip raw_text"
  let ?c1 = "if length (splitlines ?c) > 10 then join [10] (take 10 (splitlines ?c)) else ?c"
  have c1: "length (splitlines ?c1) \<le> 10"
  proof (cases "length (splitlines ?c) > 10")
    case True
    have "\<forall>l\<in>set (take 10 (splitlines ?c)). \<forall>c\<in>set l. \<not> is_linebreak c"
      using splitlines_lines_clean by (blast dest: in_set_takeD)
    then have "length (splitlines (join [10] (take 10 (splitlines ?c))))
               \<le> length (take 10 (splitlines ?c))"
      by (rule splitlines_join)
    with True show ?thesis by simp
  next
    case False
    then show ?thesis by simp
  qed
  have "length (splitlines (take 2200 ?c1)) \<le> length (splitlines ?c1)"
    by (rule splitlines_take)
  with c1 show ?thesis
    by (simp add: instagram_caption_def Let_def)
qed

text \<open>
  Claim C1, as amended. In the instagram branch the caption returned has at most 10
  newline-delimited lines (also when lines are counted as \<^verbatim>\<open>splitlines\<close> does) and at most
  2200 characters, for every text and every hashtag list. The formatted text is that caption alone when the hashtag block is empty, and
  the caption, a blank line and the hashtag block otherwise; no limit is applied to the
  text so composed.
\<close>

theorem instagram_caption_limits:
  assumes inst: "str_lower U platform = asc ''instagram''" and nonempty: "strip text \<noteq> []"
  shows "\<exists>caption block.
           platform_formatting_tool U platform text hashtags =
             Inr [(''platform'', Str (asc ''instagram'')),
                  (''formatted_text'',
                     Str (if block \<noteq> [] then caption @ [10, 10] @ block else caption)),
                  (''caption'', Str caption),
                  (''hashtag_block'', Str block)]
           \<and> newline_lines caption \<le> 10 \<and> length (splitlines caption) \<le> 10
           \<and> length caption \<le> 2200"
  using tool_instagram_eq [OF inst nonempty, of hashtags] instagram_caption_lines [OF nonempty]
    instagram_caption_splitlines [of "text"] instagram_caption_length [of "text"]
  by blast

lemma ten_lines_strip: "strip ten_lines = ten_lines"
  by (simp add: strip_def ten_lines_def isspace_def)

lemma ten_lines_split: "length (splitlines ten_lines) = 10"
  by (simp add: splitlines_def ten_lines_def is_linebreak_def)

lemma ten_lines_caption: "instagram_caption ten_lines = ten_lines"
  by (simp add: instagram_caption_def Let_def ten_lines_strip ten_lines_split)
    (simp add: ten_lines_def)

lemma ten_lines_nonempty: "strip ten_lines \<noteq> []"
  by (simp add: ten_lines_strip) (simp add: ten_lines_def)

lemma block_x: "hashtag_block_of ascii_db (Some [asc ''x'']) = asc ''#x''"
  by (simp add: hashtag_block_of_def strip_def isspace_def asc_def ascii_db_def ascii_lower_def)

lemma block_none: "hashtag_block_of U None = []"
  by (simp add: hashtag_block_of_def)

lemma long_strip: "strip (replicate 2200 97) = replicate 2200 97"
  by (rule strip_no_space) (simp add: isspace_def)

lemma long_caption: "instagram_caption (replicate 2200 97) = replicate 2200 97"
proof -
  have "splitlines (replicate 2200 97) = [replicate 2200 97]"
    unfolding splitlines_def
    by (subst splitlines_acc_one) (simp_all add: is_linebreak_def)
  then show ?thesis
    by (simp add: instagram_caption_def Let_def long_strip)
qed

lemma long_nonempty: "strip (replicate 2200 97) \<noteq> []"
  by (simp add: long_strip)

text \<open>
  The limits do not hold for the formatted text itself. A caption of ten lines with one
  hashtag gives a formatted text of twelve lines, and a caption of 2200 characters with
  one hashtag gives a formatted text of 2204 characters.
\<close>

theorem instagram_formatted_text_exceeds:
  "platform_formatting_tool ascii_db (asc ''instagram'') ten_lines (Some [asc ''x'']) =
     Inr [(''platform'', Str (asc ''instagram'')),
          (''formatted_text'', Str (ten_lines @ [10, 10] @ asc ''#x'')),
          (''caption'', Str ten_lines),
          (''hashtag_block'', Str (asc ''#x''))]
   \<and> newline_lines (ten_lines @ [10, 10] @ asc ''#x'') = 12
   \<and> platform_formatting_tool ascii_db (asc ''instagram'') (replicate 2200 97) (Some [asc ''x'']) =
     Inr [(''platform'', Str (asc ''instagram'')),
          (''formatted_text'', Str (replicate 2200 97 @ [10, 10] @ asc ''#x'')),
          (''caption'', Str (replicate 2200 97)),
          (''hashtag_block'', Str (asc ''#x''))]
   \<and> length (replicate 2200 97 @ [10, 10] @ asc ''#x'') = 2204"
proof -
  have b: "asc ''#x'' \<noteq> []" by (simp add: asc_def)
  have 1: "platform_formatting_tool ascii_db (asc ''instagram'') ten_lines (Some [asc ''x'']) =
     Inr [(''platform'', Str (asc ''instagram'')),
          (''formatted_text'', Str (ten_lines @ [10, 10] @ asc ''#x'')),
          (''caption'', Str ten_lines),
          (''hashtag_block'', Str (asc ''#x''))]"
    using b by (simp add: tool_instagram_eq [OF ex_lower_platform ten_lines_nonempty]
        ten_lines_caption block_x)
  have 2: "newline_lines (ten_lines @ [10, 10] @ asc ''#x'') = 12"
    by (simp add: newline_lines_def ten_lines_def asc_def)
  have 3: "platform_formatting_tool ascii_db (asc ''instagram'') (replicate 2200 97) (Some [asc ''x'']) =
     Inr [(''platform'', Str (asc ''instagram'')),
          (''formatted_text'', Str (replicate 2200 97 @ [10, 10] @ asc ''#x'')),
          (''caption'', Str (replicate 2200 97)),
          (''hashtag_block'', Str (asc ''#x''))]"
    using b by (simp add: tool_instagram_eq [OF ex_lower_platform long_nonempty]
        long_caption block_x)
  have 4: "length (replicate 2200 97 @ [10, 10] @ asc ''#x'') = 2204"
    by (simp add: asc_def)
  from 1 2 3 4 show ?thesis by blast
qed

theorem instagram_caption_limits_witness:
  "platform_formatting_tool ascii_db (asc ''Instagram'') ten_lines None =
     Inr [(''platform'', Str (asc ''instagram'')),
          (''formatted_text'', Str ten_lines),
          (''caption'', Str ten_lines),
          (''hashtag_block'', Str [])]
   \<and> newline_lines ten_lines \<le> 10 \<and> length (splitlines ten_lines) \<le> 10
   \<and> length ten_lines \<le> 2200"
proof -
  obtain caption block where
    r: "platform_formatting_tool ascii_db (asc ''Instagram'') ten_lines None =
             Inr [(''platform'', Str (asc ''instagram'')),
                  (''formatted_text'',
                     Str (if block \<noteq> [] then caption @ [10, 10] @ block else caption)),
                  (''caption'', Str caption),
                  (''hashtag_block'', Str block)]"
    and l: "newline_lines caption \<le> 10" "length (splitlines caption) \<le> 10"
      "length caption \<le> 2200"
    using instagram_caption_limits [OF ascii_lower_Instagram ten_lines_nonempty, of None]
    by blast
  have e: "platform_formatting_tool ascii_db (asc ''Instagram'') ten_lines None =
     Inr [(''platform'', Str (asc ''instagram'')),
          (''formatted_text'', Str ten_lines),
          (''caption'', Str ten_lines),
          (''hashtag_block'', Str [])]"
    by (simp add: tool_instagram_eq [OF ascii_lower_Instagram ten_lines_nonempty]
        ten_lines_caption block_none)
  from r e have "caption = ten_lines" by simp
  with l e show ?thesis by simp
qed

section \<open>The hashtag block\<close>

lemma clean_tags_acc: "clean_tags acc tags = acc @ cleaned_tags_spec tags"
  by (induction tags arbitrary: acc) (simp_all add: cleaned_tags_spec_def Let_def)

lemma dedupe_tags_acc:
  "dedupe_tags U seen acc ts =
     acc @ first_seen (str_lower U) (filter (\<lambda>t. str_lower U t \<notin> seen) ts)"
proof (induction ts arbitrary: seen acc)
  case Nil
  show ?case by simp
next
  case (Cons t ts)
  have f: "filter (\<lambda>x. str_lower U x \<noteq> str_lower U t \<and> str_lower U x \<notin> seen) ts
         = filter (\<lambda>x. str_lower U x \<notin> seen \<and> str_lower U x \<noteq> str_lower U t) ts"
    by (rule filter_cong) auto
  show ?case
    by (simp add: Cons.IH f)
qed

lemma first_seen_subset: "set (first_seen key xs) \<subseteq> set xs"
  by (induction key xs rule: first_seen.induct) auto

lemma first_seen_distinct: "distinct (map key (first_seen key xs))"
proof (induction key xs rule: first_seen.induct)
  case (1 key)
  show ?case by simp
next
  case (2 key x xs)
  have "key x \<notin> key ` set (first_seen key (filter (\<lambda>y. key y \<noteq> key x) xs))"
    using first_seen_subset [of key "filter (\<lambda>y. key y \<noteq> key x) xs"] by auto
  with 2 show ?case by simp
qed

lemma first_seen_subseq: "subseq (first_seen key xs) xs"
proof (induction key xs rule: first_seen.induct)
  case (1 key)
  show ?case by simp
next
  case (2 key x xs)
  have "subseq (filter (\<lambda>y. key y \<noteq> key x) xs) xs" by simp
  with 2 have "subseq (first_seen key (filter (\<lambda>y. key y \<noteq> key x) xs)) xs"
    using subseq_order.order_trans by blast
  then show ?case by simp
qed

lemma first_seen_keys: "key ` set (first_seen key xs) = key ` set xs"
  by (induction key xs rule: first_seen.induct) auto

lemma hashtag_block_of_spec:
  "hashtag_block_of U (Some tags) =
     join (asc '' '') (first_seen (str_lower U) (cleaned_tags_spec tags))"
  by (simp add: hashtag_block_of_def clean_tags_acc dedupe_tags_acc)

lemma lower_ascii: "ascii_faithful U \<Longrightarrow> is_ascii s \<Longrightarrow> str_lower U s = ascii_lower s"
  by (simp add: ascii_faithful_def)

lemma go_tags:
  assumes "ascii_faithful U"
  shows "first_seen (str_lower U) (cleaned_tags_spec [asc ''#Go'', asc ''go'', asc ''#GO''])
         = [asc ''#Go'']"
proof -
  have c: "cleaned_tags_spec [asc ''#Go'', asc ''go'', asc ''#GO'']
           = [asc ''#Go'', asc ''#go'', asc ''#GO'']"
    by (simp add: cleaned_tags_spec_def strip_def isspace_def asc_def)
  have l: "str_lower U (asc ''#Go'') = asc ''#go''" "str_lower U (asc ''#go'') = asc ''#go''"
    "str_lower U (asc ''#GO'') = asc ''#go''"
    by (simp_all add: lower_ascii [OF assms] is_ascii_def asc_def ascii_lower_def)
  show ?thesis by (simp add: c l)
qed

lemma marketing_tags:
  assumes "ascii_faithful U"
  shows "join (asc '' '') (first_seen (str_lower U)
           (cleaned_tags_spec [asc ''marketing'', asc ''#Marketing'', asc '' growth '']))
         = asc ''#marketing #growth''"
proof -
  have c: "cleaned_tags_spec [asc ''marketing'', asc ''#Marketing'', asc '' growth '']
           = [asc ''#marketing'', asc ''#Marketing'', asc ''#growth'']"
    by (simp add: cleaned_tags_spec_def strip_def isspace_def asc_def)
  have l: "str_lower U (asc ''#marketing'') = asc ''#marketing''"
    "str_lower U (asc ''#Marketing'') = asc ''#marketing''"
    "str_lower U (asc ''#growth'') = asc ''#growth''"
    by (simp_all add: lower_ascii [OF assms] is_ascii_def asc_def ascii_lower_def)
  have d: "asc ''#growth'' \<noteq> asc ''#marketing''" by (simp add: asc_def)
  have j: "asc ''#marketing'' @ [32] @ asc ''#growth'' = asc ''#marketing #growth''"
    by (simp add: asc_def)
  show ?thesis using d j by (simp add: c l)
qed

text \<open>
  Claim C8. In the instagram branch every tag is trimmed, empty tags are dropped and a
  tag that does not begin with \<^verbatim>\<open>#\<close> gets one; the tags are then deduplicated by their
  lower-cased form, keeping the first tag seen for each in its order and casing, and the
  hashtag block is the result joined by single spaces. On a runtime that lower-cases
  ASCII as usual, \<^verbatim>\<open>["#Go", "go", "#GO"]\<close> yields the single tag \<^verbatim>\<open>#Go\<close> and
  \<^verbatim>\<open>["marketing", "#Marketing", " growth "]\<close> the block \<^verbatim>\<open>#marketing #growth\<close>.
\<close>

theorem hashtag_block_dedup:
  assumes inst: "str_lower U platform = asc ''instagram''" and nonempty: "strip text \<noteq> []"
  shows "clean_tags [] tags = cleaned_tags_spec tags
       \<and> dedupe_tags U {} [] (cleaned_tags_spec tags)
           = first_seen (str_lower U) (cleaned_tags_spec tags)
       \<and> distinct (map (str_lower U) (dedupe_tags U {} [] (cleaned_tags_spec tags)))
       \<and> subseq (dedupe_tags U {} [] (cleaned_tags_spec tags)) (cleaned_tags_spec tags)
       \<and> str_lower U ` set (dedupe_tags U {} [] (cleaned_tags_spec tags))
           = str_lower U ` set (cleaned_tags_spec tags)
       \<and> (\<exists>ft caption.
             platform_formatting_tool U platform text (Some tags) =
               Inr [(''platform'', Str (asc ''instagram'')),
                    (''formatted_text'', Str ft),
                    (''caption'', Str caption),
                    (''hashtag_block'',
                       Str (join (asc '' '')
                              (first_seen (str_lower U) (cleaned_tags_spec tags))))])
       \<and> (ascii_faithful U \<longrightarrow>
             dedupe_tags U {} [] (clean_tags [] [asc ''#Go'', asc ''go'', asc ''#GO''])
               = [asc ''#Go'']
           \<and> (\<exists>ft caption.
                 platform_formatting_tool U platform text
                     (Some [asc ''marketing'', asc ''#Marketing'', asc '' growth '']) =
                   Inr [(''platform'', Str (asc ''instagram'')),
                        (''formatted_text'', Str ft),
                        (''caption'', Str caption),
                        (''hashtag_block'', Str (asc ''#marketing #growth''))]))"
proof -
  have c: "clean_tags [] tags = cleaned_tags_spec tags" for tags
    using clean_tags_acc [of "[]" tags] by simp
  have d: "dedupe_tags U {} [] ts = first_seen (str_lower U) ts" for ts
    using dedupe_tags_acc [of U "{}" "[]" ts] by simp
  have t: "\<exists>ft caption.
             platform_formatting_tool U platform text (Some tags) =
               Inr [(''platform'', Str (asc ''instagram'')),
                    (''formatted_text'', Str ft),
                    (''caption'', Str caption),
                    (''hashtag_block'',
                       Str (join (asc '' '')
                              (first_seen (str_lower U) (cleaned_tags_spec tags))))]" for tags
    unfolding tool_instagram_eq [OF inst nonempty] hashtag_block_of_spec by blast
  have g: "dedupe_tags U {} [] (clean_tags [] [asc ''#Go'', asc ''go'', asc ''#GO''])
               = [asc ''#Go'']" if "ascii_faithful U"
    by (simp only: c d go_tags [OF that])
  have m: "\<exists>ft caption.
                 platform_formatting_tool U platform text
                     (Some [asc ''marketing'', asc ''#Marketing'', asc '' growth '']) =
                   Inr [(''platform'', Str (asc ''instagram'')),
                        (''formatted_text'', Str ft),
                        (''caption'', Str caption),
                        (''hashtag_block'', Str (asc ''#marketing #growth''))]"
    if "ascii_faithful U"
    using t [of "[asc ''marketing'', asc ''#Marketing'', asc '' growth '']"]
    by (simp only: marketing_tags [OF that])
  show ?thesis
    unfolding d
    using c first_seen_distinct [of "str_lower U"] first_seen_subseq [of "str_lower U"]
      first_seen_keys [of "str_lower U"] t g m d
    by (intro conjI impI) simp_all
qed

lemma ascii_db_faithful: "ascii_faithful ascii_db"
  by (simp add: ascii_faithful_def ascii_db_def)

lemma hi_caption: "instagram_caption (asc ''hi'') = asc ''hi''"
  by (simp add: instagram_caption_def Let_def strip_def splitlines_def asc_def isspace_def
      is_linebreak_def)

theorem hashtag_block_dedup_witness:
  "dedupe_tags ascii_db {} [] (clean_tags [] [asc ''#Go'', asc ''go'', asc ''#GO'']) = [asc ''#Go'']
   \<and> platform_formatting_tool ascii_db (asc ''Instagram'') (asc ''hi'')
        (Some [asc ''marketing'', asc ''#Marketing'', asc '' growth '']) =
      Inr [(''platform'', Str (asc ''instagram'')),
           (''formatted_text'', Str (asc ''hi'' @ [10, 10] @ asc ''#marketing #growth'')),
           (''caption'', Str (asc ''hi'')),
           (''hashtag_block'', Str (asc ''#marketing #growth''))]"
proof -
  note t = hashtag_block_dedup [OF ascii_lower_Instagram strip_hi,
      of "[asc ''marketing'', asc ''#Marketing'', asc '' growth '']"]
  from t ascii_db_faithful
  have g: "dedupe_tags ascii_db {} [] (clean_tags [] [asc ''#Go'', asc ''go'', asc ''#GO''])
           = [asc ''#Go'']"
    by blast
  from t ascii_db_faithful obtain ft caption where
    r: "platform_formatting_tool ascii_db (asc ''Instagram'') (asc ''hi'')
          (Some [asc ''marketing'', asc ''#Marketing'', asc '' growth '']) =
        Inr [(''platform'', Str (asc ''instagram'')),
             (''formatted_text'', Str ft),
             (''caption'', Str caption),
             (''hashtag_block'', Str (asc ''#marketing #growth''))]"
    by blast
  have b: "hashtag_block_of ascii_db (Some [asc ''marketing'', asc ''#Marketing'', asc '' growth ''])
           = asc ''#marketing #growth''"
    using r unfolding tool_instagram_eq [OF ascii_lower_Instagram strip_hi] by simp
  have n: "asc ''#marketing #growth'' \<noteq> []" by (simp add: asc_def)
  have "platform_formatting_tool ascii_db (asc ''Instagram'') (asc ''hi'')
        (Some [asc ''marketing'', asc ''#Marketing'', asc '' growth '']) =
      Inr [(''platform'', Str (asc ''instagram'')),
           (''formatted_text'', Str (asc ''hi'' @ [10, 10] @ asc ''#marketing #growth'')),
           (''caption'', Str (asc ''hi'')),
           (''hashtag_block'', Str (asc ''#marketing #growth''))]"
    using n by (simp add: tool_instagram_eq [OF ascii_lower_Instagram strip_hi] b hi_caption)
  with g show ?thesis by blast
qed

end
